(* ===== verification/Prelude.thy ===== *)
theory Prelude
  imports Main "HOL-Library.Multiset"
begin

text \<open>
  Shared vocabulary of the development: the named theorem collections that the
  component theories fill, and generic facts on lists, prefixes and association lists
  that several components use.  Nothing here is specific to \<open>src/genConf.js\<close>.
\<close>

named_theorems js_eval
  "equations of the JavaScript runtime model, unfolded when a concrete run is evaluated"

named_theorems model_defs
  "definitions of the genConf model, unfolded when a concrete run is evaluated"

named_theorems spec_defs
  "definitions of the specification-level functions, unfolded to evaluate them on examples"

section \<open>Exceptions as sums\<close>

text \<open>Sequencing of computations that may throw: \<open>Inl\<close> is the exception, and the
  rest of the computation does not run.\<close>

definition sbind :: "'e + 'a \<Rightarrow> ('a \<Rightarrow> 'e + 'b) \<Rightarrow> 'e + 'b" where
  "sbind m f = (case m of Inl e \<Rightarrow> Inl e | Inr a \<Rightarrow> f a)"

text \<open>JavaScript's short-circuit \<open>a || b\<close> on conditions that may throw: \<open>b\<close> is
  evaluated only when \<open>a\<close> is false.\<close>

fun js_or :: "'e + bool \<Rightarrow> 'e + bool \<Rightarrow> 'e + bool" where
  "js_or (Inl e) b = Inl e"
| "js_or (Inr True) b = Inr True"
| "js_or (Inr False) b = b"

section \<open>Lists\<close>

lemma dropWhile_not_nil_hd:
  "dropWhile P xs \<noteq> [] \<Longrightarrow> \<not> P (hd (dropWhile P xs))"
  by (induction xs) auto

lemma dropWhile_last: "dropWhile P xs \<noteq> [] \<Longrightarrow> last (dropWhile P xs) = last xs"
  by (induction xs) auto

text \<open>A concatenation of lists keyed by distinct keys is distinct when each list is and
  lists of different keys are disjoint.\<close>

lemma distinct_concat_map_key:
  "distinct (map key xs) \<Longrightarrow> \<forall>x \<in> set xs. distinct (f x) \<Longrightarrow>
   \<forall>x \<in> set xs. \<forall>y \<in> set xs. key x \<noteq> key y \<longrightarrow> set (f x) \<inter> set (f y) = {} \<Longrightarrow>
   distinct (concat (map f xs))"
proof (induction xs)
  case Nil
  then show ?case by simp
next
  case (Cons x xs)
  have "set (f x) \<inter> set (f y) = {}" if y: "y \<in> set xs" for y
  proof -
    from Cons.prems(1) y have "key x \<noteq> key y" by auto
    with Cons.prems(3) y show ?thesis by simp
  qed
  then have "set (f x) \<inter> set (concat (map f xs)) = {}" by auto
  with Cons show ?case by simp
qed

lemma concat_if_empty:
  "\<forall>x \<in> set xs. \<not> P x \<Longrightarrow> concat (map (\<lambda>x. if P x then [f x] else []) xs) = []"
  by (induction xs) auto

section \<open>Association lists\<close>

lemma map_of_filter_key:
  "P k \<Longrightarrow> map_of (filter (\<lambda>p. P (fst p)) ps) k = map_of ps k"
  by (induction ps) auto

section \<open>Sums\<close>

lemma map_sum_eq_Inr_iff [simp]: "map_sum f g x = Inr y \<longleftrightarrow> (\<exists>z. x = Inr z \<and> y = g z)"
  by (cases x) auto

lemma map_sum_eq_Inl_iff [simp]: "map_sum f g x = Inl y \<longleftrightarrow> (\<exists>z. x = Inl z \<and> y = f z)"
  by (cases x) auto

lemma sbind_Inl [simp]: "sbind (Inl e) f = Inl e"
  and sbind_Inr [simp]: "sbind (Inr a) f = f a"
  by (simp_all add: sbind_def)

lemma js_or_Inr: "js_or (Inr a) b = (if a then Inr True else b)"
  by (cases a) simp_all

end
