(* ===== verification/JsRuntime.thy ===== *)
theory JsRuntime
  imports Prelude
begin

text \<open>
  The part of the JavaScript runtime that \<open>src/genConf.js\<close> relies on, modelled from the
  ECMAScript semantics because it is not code of the repository: strings as lists of
  8-bit characters (code units above U+00FF are not modelled), \<open>String.prototype.trim\<close>,
  \<open>split\<close> on a one-character separator and on \<open>/\r?\n/\<close>, the destructuring of
  \<open>line.split(/=(.*)/)\<close>, and plain objects as insertion-ordered association lists whose
  \<open>Object.entries\<close> order lists array-index keys first, ascending, then the other keys
  in insertion order.  A thrown exception is a value of \<open>js_error\<close>.
\<close>

datatype js_error = TypeError string

section \<open>Strings\<close>

text \<open>The white-space and line-terminator code units below U+0100 (ECMA-262, WhiteSpace
  and LineTerminator): TAB, LF, VT, FF, CR, SPACE and NO-BREAK SPACE.\<close>

definition js_whitespace :: "char list" where
  "js_whitespace = [CHR 0x09, CHR 0x0A, CHR 0x0B, CHR 0x0C, CHR 0x0D, CHR 0x20, CHR 0xA0]"

definition is_js_space :: "char \<Rightarrow> bool" where
  "is_js_space c \<longleftrightarrow> c \<in> set js_whitespace"

definition is_line_terminator :: "char \<Rightarrow> bool" where
  "is_line_terminator c \<longleftrightarrow> c = CHR 0x0A \<or> c = CHR 0x0D"

definition js_trim :: "string \<Rightarrow> string" where
  "js_trim s = rev (dropWhile is_js_space (rev (dropWhile is_js_space s)))"

text \<open>\<open>s.split(c)\<close> for a separator of one character: the pieces between the separators,
  empty pieces included; the result is never empty.\<close>

fun js_split :: "char \<Rightarrow> string \<Rightarrow> string list" where
  "js_split c [] = [[]]"
| "js_split c (x # xs) =
     (if x = c then [] # js_split c xs
      else (let ws = js_split c xs in (x # hd ws) # tl ws))"

text \<open>\<open>s.split(/\r?\n/)\<close>: split at every LF and drop one CR right before it.  The last
  piece is not followed by an LF, so a CR at its end stays.\<close>

definition strip_cr :: "string \<Rightarrow> string" where
  "strip_cr s = (if s \<noteq> [] \<and> last s = CHR 0x0D then butlast s else s)"

definition js_split_lines :: "string \<Rightarrow> string list" where
  "js_split_lines s =
     (let ps = js_split (CHR 0x0A) s in map strip_cr (butlast ps) @ [last ps])"

text \<open>\<open>let [key, rest] = line.split(/=(.*)/)\<close> on a line that contains \<open>=\<close>: the
  regular expression matches at the first \<open>=\<close>; \<open>key\<close> is what precedes it and
  \<open>rest\<close> the capture \<open>(.*)\<close>, which stops before the first line terminator
  (\<open>.\<close> does not match CR or LF).\<close>

definition js_split_first_eq :: "string \<Rightarrow> string \<times> string" where
  "js_split_first_eq line =
     (takeWhile (\<lambda>c. c \<noteq> CHR ''='') line,
      takeWhile (\<lambda>c. \<not> is_line_terminator c)
        (drop 1 (dropWhile (\<lambda>c. c \<noteq> CHR ''='') line)))"

definition js_ends_with :: "string \<Rightarrow> string \<Rightarrow> bool" where
  "js_ends_with suffix s \<longleftrightarrow> drop (length s - length suffix) s = suffix \<and> length suffix \<le> length s"

section \<open>Objects\<close>

type_synonym 'v js_obj = "(string \<times> 'v) list"

abbreviation js_get :: "'v js_obj \<Rightarrow> string \<Rightarrow> 'v option" where
  "js_get obj k \<equiv> map_of obj k"

abbreviation js_has :: "'v js_obj \<Rightarrow> string \<Rightarrow> bool" where
  "js_has obj k \<equiv> k \<in> fst ` set obj"

text \<open>\<open>obj[k] = v\<close>: an existing property keeps its place, a new one goes last.\<close>

fun js_set :: "string \<Rightarrow> 'v \<Rightarrow> 'v js_obj \<Rightarrow> 'v js_obj" where
  "js_set k v [] = [(k, v)]"
| "js_set k v ((k', v') # ps) =
     (if k = k' then (k, v) # ps else (k', v') # js_set k v ps)"

text \<open>The properties every plain object inherits from \<open>Object.prototype\<close>; reading
  \<open>obj[k]\<close> for one of them that is not an own property yields the inherited value.\<close>

definition object_proto_props :: "string list" where
  "object_proto_props =
     [''__proto__'', ''constructor'', ''hasOwnProperty'', ''isPrototypeOf'',
      ''propertyIsEnumerable'', ''toLocaleString'', ''toString'', ''valueOf'',
      ''__defineGetter__'', ''__defineSetter__'', ''__lookupGetter__'', ''__lookupSetter__'']"

text \<open>Array indices (ECMA-262 6.1.7): canonical decimal strings of a number below
  \<open>2^32 - 1\<close>.  \<open>Object.entries\<close> lists them first, in ascending order.\<close>

definition is_digit :: "char \<Rightarrow> bool" where
  "is_digit c \<longleftrightarrow> c \<in> set ''0123456789''"

definition dec_val :: "string \<Rightarrow> nat" where
  "dec_val s = foldl (\<lambda>n c. 10 * n + (of_char c - 48)) 0 s"

definition is_array_index :: "string \<Rightarrow> bool" where
  "is_array_index s \<longleftrightarrow>
     s \<noteq> [] \<and> list_all is_digit s \<and> (hd s = CHR ''0'' \<longrightarrow> s = ''0'') \<and> dec_val s < 4294967295"

definition js_entries :: "'v js_obj \<Rightarrow> (string \<times> 'v) list" where
  "js_entries obj =
     sort_key (\<lambda>p. dec_val (fst p)) (filter (\<lambda>p. is_array_index (fst p)) obj)
     @ filter (\<lambda>p. \<not> is_array_index (fst p)) obj"

declare js_whitespace_def [js_eval] is_js_space_def [js_eval] is_line_terminator_def [js_eval]
  js_trim_def [js_eval] strip_cr_def [js_eval] js_split_lines_def [js_eval]
  js_split_first_eq_def [js_eval] js_ends_with_def [js_eval] object_proto_props_def [js_eval]
  is_digit_def [js_eval] dec_val_def [js_eval] is_array_index_def [js_eval] js_entries_def [js_eval]

section \<open>Lemmas on strings\<close>

lemma js_split_not_Nil [simp]: "js_split c s \<noteq> []"
  by (induction s) (simp_all add: Let_def)

lemma js_trim_no_lead: "js_trim s \<noteq> [] \<Longrightarrow> \<not> is_js_space (hd (js_trim s))"
proof -
  assume ne: "js_trim s \<noteq> []"
  let ?t = "dropWhile is_js_space s"
  have t: "?t \<noteq> []" using ne by (auto simp: js_trim_def dest: set_dropWhileD)
  have "hd (js_trim s) = last (dropWhile is_js_space (rev ?t))"
    using ne by (simp add: js_trim_def hd_rev)
  also have "\<dots> = hd ?t"
    using ne by (simp add: js_trim_def dropWhile_last last_rev)
  finally show ?thesis using dropWhile_not_nil_hd [OF t] by simp
qed

lemma js_trim_no_trail: "js_trim s \<noteq> [] \<Longrightarrow> \<not> is_js_space (last (js_trim s))"
  unfolding js_trim_def
  by (simp add: last_rev dropWhile_not_nil_hd)

lemma js_split_pieces: "w \<in> set (js_split c s) \<Longrightarrow> c \<notin> set w"
proof (induction s arbitrary: w)
  case Nil
  then show ?case by simp
next
  case (Cons x xs)
  obtain v vs where "js_split c xs = v # vs"
    by (cases "js_split c xs") auto
  with Cons show ?case
    by (auto simp: Let_def split: if_splits)
qed

lemma js_split_no_sep: "c \<notin> set s \<Longrightarrow> js_split c s = [s]"
  by (induction s) (auto simp: Let_def)

lemma strip_cr_id: "CHR 0x0D \<notin> set s \<Longrightarrow> strip_cr s = s"
  by (auto simp: strip_cr_def dest: last_in_set)

lemma js_split_pieces_sub: "w \<in> set (js_split c s) \<Longrightarrow> set w \<subseteq> set s"
proof (induction s arbitrary: w)
  case Nil
  then show ?case by simp
next
  case (Cons x xs)
  obtain v vs where "js_split c xs = v # vs"
    by (cases "js_split c xs") auto
  with Cons show ?case
    by (fastforce simp: Let_def split: if_splits)
qed

lemma js_split_lines_no_cr:
  assumes "CHR 0x0D \<notin> set s"
  shows "js_split_lines s = js_split (CHR 0x0A) s"
proof -
  let ?ps = "js_split (CHR 0x0A) s"
  have "\<forall>w \<in> set (butlast ?ps). CHR 0x0D \<notin> set w"
    using assms by (auto dest!: in_set_butlastD js_split_pieces_sub)
  then have "map strip_cr (butlast ?ps) = butlast ?ps"
    by (simp add: strip_cr_id map_idI)
  then show ?thesis
    by (simp add: js_split_lines_def Let_def)
qed

lemma js_split_lines_not_Nil [simp]: "js_split_lines s \<noteq> []"
  by (simp add: js_split_lines_def Let_def)

lemma js_split_lines_LF: "js_split_lines (CHR 0x0A # s) = [] # js_split_lines s"
proof -
  obtain w ws where p: "js_split (CHR 0x0A) s = w # ws" by (cases "js_split (CHR 0x0A) s") auto
  then show ?thesis by (cases ws) (simp_all add: js_split_lines_def strip_cr_def)
qed

lemma js_split_lines_other:
  assumes "x \<noteq> CHR 0x0A" and "x = CHR 0x0D \<Longrightarrow> s = [] \<or> hd s \<noteq> CHR 0x0A"
  shows "js_split_lines (x # s) = (x # hd (js_split_lines s)) # tl (js_split_lines s)"
proof -
  obtain w ws where p: "js_split (CHR 0x0A) s = w # ws" by (cases "js_split (CHR 0x0A) s") auto
  have sc: "strip_cr (x # w) = x # strip_cr w" if "ws \<noteq> []"
  proof (cases w)
    case Nil
    have "x \<noteq> CHR 0x0D"
    proof
      assume x: "x = CHR 0x0D"
      from Nil p that obtain s' where "s = CHR 0x0A # s'"
        by (cases s) (auto simp: Let_def split: if_splits)
      with assms(2) x show False by simp
    qed
    with Nil show ?thesis by (simp add: strip_cr_def)
  next
    case (Cons y ys)
    then show ?thesis by (simp add: strip_cr_def)
  qed
  show ?thesis
    using assms(1) p sc by (cases ws) (simp_all add: js_split_lines_def Let_def)
qed

lemma js_trim_id:
  "s = [] \<or> (\<not> is_js_space (hd s) \<and> \<not> is_js_space (last s)) \<Longrightarrow> js_trim s = s"
proof (cases "s = []")
  case True
  then show ?thesis by (simp add: js_trim_def)
next
  case False
  assume h: "s = [] \<or> (\<not> is_js_space (hd s) \<and> \<not> is_js_space (last s))"
  with False have "dropWhile is_js_space s = s" by (cases s) auto
  moreover from h False have "dropWhile is_js_space (rev s) = rev s"
    by (cases "rev s") (auto simp: hd_rev [symmetric])
  ultimately show ?thesis by (simp add: js_trim_def)
qed

lemma js_trim_idem: "js_trim (js_trim s) = js_trim s"
  using js_trim_no_lead [of s] js_trim_no_trail [of s] by (blast intro: js_trim_id)

lemma js_trim_space_Cons: "is_js_space x \<Longrightarrow> js_trim (x # s) = js_trim s"
  by (simp add: js_trim_def)

lemma set_js_trim: "set (js_trim s) \<subseteq> set s"
  unfolding js_trim_def by (metis set_dropWhileD set_rev subsetI)

lemma js_split_first_eq_append:
  "CHR ''='' \<notin> set k \<Longrightarrow>
   js_split_first_eq (k @ CHR ''='' # v) = (k, takeWhile (\<lambda>c. \<not> is_line_terminator c) v)"
proof -
  assume "CHR ''='' \<notin> set k"
  then have "\<forall>c \<in> set k. c \<noteq> CHR ''=''" by blast
  then show ?thesis by (simp add: js_split_first_eq_def takeWhile_append2 dropWhile_append2)
qed

lemma js_split_lines_append_line:
  assumes "CHR 0x0A \<notin> set l" and "CHR 0x0D \<notin> set l"
  shows "js_split_lines (l @ CHR 0x0A # s) = l # js_split_lines s"
  using assms
proof (induction l)
  case Nil
  then show ?case by (simp add: js_split_lines_LF)
next
  case (Cons a l)
  from Cons.prems have a: "a \<noteq> CHR 0x0A" "a \<noteq> CHR 0x0D" by auto
  have "js_split_lines (a # l @ CHR 0x0A # s) =
      (a # hd (js_split_lines (l @ CHR 0x0A # s))) # tl (js_split_lines (l @ CHR 0x0A # s))"
    by (rule js_split_lines_other) (use a in auto)
  with Cons show ?case by simp
qed

lemma js_split_lines_terminated:
  "\<forall>l \<in> set ls. CHR 0x0A \<notin> set l \<and> CHR 0x0D \<notin> set l \<Longrightarrow>
   js_split_lines (concat (map (\<lambda>l. l @ [CHR 0x0A]) ls)) = ls @ [[]]"
proof (induction ls)
  case Nil
  then show ?case by (simp add: js_split_lines_def)
next
  case (Cons l ls)
  then show ?case by (simp add: js_split_lines_append_line)
qed

section \<open>Lemmas on objects\<close>

lemma map_of_js_set [simp]: "map_of (js_set k v obj) = (map_of obj)(k \<mapsto> v)"
  by (induction obj) (auto simp: fun_eq_iff)

lemma keys_js_set: "map fst (js_set k v obj) = (if k \<in> fst ` set obj then map fst obj else map fst obj @ [k])"
  by (induction obj) force+

lemma set_keys_js_set [simp]: "fst ` set (js_set k v obj) = insert k (fst ` set obj)"
proof -
  have "set (map fst (js_set k v obj)) = insert k (set (map fst obj))"
    by (auto simp: keys_js_set)
  then show ?thesis by simp
qed

lemma distinct_js_set [simp]: "distinct (map fst obj) \<Longrightarrow> distinct (map fst (js_set k v obj))"
  by (simp add: keys_js_set image_iff)

lemma js_entries_no_index:
  "\<forall>k \<in> fst ` set obj. \<not> is_array_index k \<Longrightarrow> js_entries obj = obj"
proof -
  assume h: "\<forall>k \<in> fst ` set obj. \<not> is_array_index k"
  then have "filter (\<lambda>p. is_array_index (fst p)) obj = []"
    by (auto simp: filter_empty_conv)
  moreover from h have "filter (\<lambda>p. \<not> is_array_index (fst p)) obj = obj"
    by (auto simp: filter_id_conv)
  ultimately show ?thesis by (simp add: js_entries_def)
qed

lemma mset_js_entries: "mset (js_entries obj) = mset obj"
  by (simp add: js_entries_def flip: multiset_partition)

lemma set_js_entries [simp]: "set (js_entries obj) = set obj"
  by (metis mset_js_entries set_mset_mset)

lemma distinct_js_entries: "distinct (map fst obj) \<Longrightarrow> distinct (map fst (js_entries obj))"
  by (metis mset_js_entries mset_map mset_eq_imp_distinct_iff)

lemma map_of_js_entries: "distinct (map fst obj) \<Longrightarrow> map_of (js_entries obj) = map_of obj"
  by (rule map_of_inject_set [THEN iffD2]) (auto simp: distinct_js_entries)

text \<open>\<open>Object.entries\<close> of an object with some keys removed lists the remaining
  entries in the same order.\<close>

lemma js_entries_filter:
  "js_entries (filter (\<lambda>p. P (fst p)) obj) = filter (\<lambda>p. P (fst p)) (js_entries obj)"
  by (simp add: js_entries_def filter_sort [symmetric] filter_filter conj_commute)

lemma js_has_get: "js_has obj k \<longleftrightarrow> (\<exists>v. js_get obj k = Some v)"
  by (metis map_of_eq_None_iff not_None_eq)

section \<open>Properties of the string operations\<close>

text \<open>C19. Round trip of \<open>line.split(/=(.*)/)\<close> (line 41): on a line \<open>k=v\<close> whose key
  has no \<open>=\<close> and whose value has no line terminator, \<open>key\<close> is \<open>k\<close> and \<open>rest\<close> is
  \<open>v\<close>, later \<open>=\<close> signs of the value included.\<close>

theorem split_first_eq_roundtrip:
  assumes "CHR ''='' \<notin> set k" and "\<not> list_ex is_line_terminator v"
  shows "js_split_first_eq (k @ ''='' @ v) = (k, v)"
  using js_split_first_eq_append [OF assms(1), of v] assms(2)
  by (simp add: takeWhile_eq_all_conv list_ex_iff)

end
