(* ===== verification/Parser.thy ===== *)
theory Parser
  imports JsRuntime
begin

text \<open>
  DefinitionParser: \<open>src/genConf.js\<close> lines 8--27 (the key vocabulary) and 39--53 (the
  per-line handler of the \<open>forEach\<close> over the lines of one \<open>.wg\<close> file).  A node object
  is a JavaScript object whose values are arrays of strings or \<open>true\<close>; the handler also
  writes the script's global \<open>err\<close> flag and prints warnings, which are the fields
  \<open>err\<close> and \<open>warnings\<close> of the global state \<open>gstate\<close>.
\<close>

section \<open>Constants of the script\<close>

definition allowed_keys :: "string list" where
  "allowed_keys =
     [''Address'', ''ConnectTo'', ''DefaultRoute'', ''DNS'', ''Endpoint'', ''ListenPort'',
      ''MTU'', ''Network'', ''PersistentKeepalive'', ''PostDown'', ''PostUp'', ''PreDown'',
      ''PreUp'', ''PrivateKey'', ''PublicKey'', ''SplitFiles'', ''Table'']"

definition must_have :: "string list" where
  "must_have = [''Address'', ''PublicKey'']"

section \<open>Values, diagnostics and the global state\<close>

text \<open>A property of a node object holds an array of strings or the boolean \<open>true\<close>.\<close>

datatype jsval = Arr "string list" | JTrue

type_synonym node_obj = "jsval js_obj"

text \<open>The two \<open>console.warn\<close> messages of the script.\<close>

datatype diag =
    Unfamiliar string string \<comment> \<open>key, file\<close>
  | Missing string string \<comment> \<open>file, required key\<close>

fun diag_msg :: "diag \<Rightarrow> string" where
  "diag_msg (Unfamiliar key file) = key @ '' in '' @ file @ '' is unfamiliar''"
| "diag_msg (Missing file mh) = file @ '' is missing '' @ mh"

text \<open>The module-level state: the \<open>nodes\<close> object (line 31), the \<open>err\<close> flag (line 35)
  and the warnings printed so far.\<close>

record gstate =
  nodes :: "node_obj js_obj"
  err :: bool
  warnings :: "diag list"

definition warn :: "diag \<Rightarrow> gstate \<Rightarrow> gstate" where
  "warn d g = g\<lparr>warnings := warnings g @ [d], err := True\<rparr>"

section \<open>One line\<close>

text \<open>\<open>[...(obj[key] || [])]\<close>: an own array is spread; an absent key gives \<open>[]\<close>, except a
  key inherited from \<open>Object.prototype\<close>, whose value (a function or an object) is truthy
  and not iterable, so the spread throws.\<close>

definition spread_or_empty :: "node_obj \<Rightarrow> string \<Rightarrow> js_error + string list" where
  "spread_or_empty obj key =
     (case js_get obj key of
        Some (Arr vs) \<Rightarrow> Inr vs
      | Some JTrue \<Rightarrow> Inl (TypeError ''object is not iterable'')
      | None \<Rightarrow>
          (if key \<in> set object_proto_props then Inl (TypeError ''object is not iterable'')
           else Inr []))"

text \<open>The body of the \<open>forEach\<close> callback, lines 40--52.  An exception carries the global
  state at the moment it is thrown (the warning of line 44 is already printed).\<close>

definition parse_line ::
  "string \<Rightarrow> node_obj \<times> gstate \<Rightarrow> string \<Rightarrow> (js_error \<times> gstate) + (node_obj \<times> gstate)" where
  "parse_line file st line =
     (case st of (obj, g) \<Rightarrow>
       if CHR ''='' \<in> set line then
         (case js_split_first_eq line of (k0, rest) \<Rightarrow>
           let key = js_trim k0;
               g' = (if key \<in> set allowed_keys then g else warn (Unfamiliar key file) g)
           in if key = ''ConnectTo'' then
                (case spread_or_empty obj key of
                   Inl e \<Rightarrow> Inl (e, g')
                 | Inr vs \<Rightarrow> Inr (js_set key (Arr (vs @ map js_trim (js_split CHR '','' rest))) obj, g'))
              else if key = ''DefaultRoute'' \<or> key = ''SplitFiles'' then
                Inr (if js_trim rest = ''true'' then js_set key JTrue obj else obj, g')
              else
                (case spread_or_empty obj key of
                   Inl e \<Rightarrow> Inl (e, g')
                 | Inr vs \<Rightarrow> Inr (js_set key (Arr (vs @ [js_trim rest])) obj, g')))
       else Inr (obj, g))"

text \<open>The \<open>forEach\<close> over the lines: an exception stops it.\<close>

fun parse_lines ::
  "string \<Rightarrow> node_obj \<times> gstate \<Rightarrow> string list \<Rightarrow> (js_error \<times> gstate) + (node_obj \<times> gstate)" where
  "parse_lines file st [] = Inr st"
| "parse_lines file st (l # ls) =
     (case parse_line file st l of
        Inl e \<Rightarrow> Inl e
      | Inr st' \<Rightarrow> parse_lines file st' ls)"

section \<open>Specification of the parser\<close>

text \<open>What one file's lines mean, stated without the handler's control flow: the key and
  the value part of a \<open>key = value\<close> line, the lines that carry \<open>=\<close>, and for
  each kind of key what the parsed object holds.  \<open>line_obj\<close> and \<open>line_gstate\<close>
  split the handler into its effect on the node object and on the global state;
  \<open>obj_lines\<close> runs the first over a list of lines and reports the index of the line
  that throws.\<close>

definition line_key :: "string \<Rightarrow> string" where
  "line_key l = js_trim (fst (js_split_first_eq l))"

definition line_rest :: "string \<Rightarrow> string" where
  "line_rest l = snd (js_split_first_eq l)"

definition kv_lines :: "string list \<Rightarrow> string list" where
  "kv_lines ls = filter (\<lambda>l. CHR ''='' \<in> set l) ls"

definition flag_keys :: "string list" where
  "flag_keys = [''DefaultRoute'', ''SplitFiles'']"

definition line_gstate :: "string \<Rightarrow> string \<Rightarrow> gstate \<Rightarrow> gstate" where
  "line_gstate file l g =
     (if CHR ''='' \<in> set l \<and> line_key l \<notin> set allowed_keys then warn (Unfamiliar (line_key l) file) g else g)"

definition line_obj :: "node_obj \<Rightarrow> string \<Rightarrow> js_error + node_obj" where
  "line_obj obj l =
     (if CHR ''='' \<in> set l then
        (if line_key l = ''ConnectTo'' then
           map_sum id (\<lambda>vs. js_set (line_key l) (Arr (vs @ map js_trim (js_split CHR '','' (line_rest l)))) obj)
             (spread_or_empty obj (line_key l))
         else if line_key l \<in> set flag_keys then
           Inr (if js_trim (line_rest l) = ''true'' then js_set (line_key l) JTrue obj else obj)
         else
           map_sum id (\<lambda>vs. js_set (line_key l) (Arr (vs @ [js_trim (line_rest l)])) obj)
             (spread_or_empty obj (line_key l)))
      else Inr obj)"

fun obj_lines :: "node_obj \<Rightarrow> string list \<Rightarrow> (js_error \<times> nat) + node_obj" where
  "obj_lines obj [] = Inr obj"
| "obj_lines obj (l # ls) =
     (case line_obj obj l of
        Inl e \<Rightarrow> Inl (e, 0)
      | Inr obj' \<Rightarrow> map_sum (\<lambda>(e, n). (e, Suc n)) id (obj_lines obj' ls))"

definition unfamiliar_diags :: "string \<Rightarrow> string list \<Rightarrow> diag list" where
  "unfamiliar_diags file ls =
     [Unfamiliar (line_key l) file. l \<leftarrow> kv_lines ls, line_key l \<notin> set allowed_keys]"

definition attr_values :: "node_obj \<Rightarrow> string \<Rightarrow> string list" where
  "attr_values obj k = (case js_get obj k of Some (Arr vs) \<Rightarrow> vs | _ \<Rightarrow> [])"

definition values_of :: "string \<Rightarrow> string list \<Rightarrow> string list" where
  "values_of k ls = [js_trim (line_rest l). l \<leftarrow> kv_lines ls, line_key l = k]"

definition connect_values :: "string list \<Rightarrow> string list" where
  "connect_values ls =
     concat [map js_trim (js_split CHR '','' (line_rest l)). l \<leftarrow> kv_lines ls, line_key l = ''ConnectTo'']"

definition flag_set :: "string \<Rightarrow> string list \<Rightarrow> bool" where
  "flag_set k ls = list_ex (\<lambda>l. line_key l = k \<and> js_trim (line_rest l) = ''true'') (kv_lines ls)"

definition wf_entry :: "string \<times> jsval \<Rightarrow> bool" where
  "wf_entry p \<longleftrightarrow>
     fst p \<notin> set object_proto_props \<and>
     (if fst p \<in> set flag_keys then snd p = JTrue else snd p \<noteq> JTrue \<and> snd p \<noteq> Arr [])"

definition wf_obj :: "node_obj \<Rightarrow> bool" where
  "wf_obj obj \<longleftrightarrow> distinct (map fst obj) \<and> list_all wf_entry obj"

definition proto_line :: "string \<Rightarrow> bool" where
  "proto_line l \<longleftrightarrow> CHR ''='' \<in> set l \<and> line_key l \<in> set object_proto_props"

declare allowed_keys_def [model_defs] must_have_def [model_defs] warn_def [model_defs]
  spread_or_empty_def [model_defs] parse_line_def [model_defs] flag_keys_def [model_defs]
declare line_key_def [spec_defs] line_rest_def [spec_defs] kv_lines_def [spec_defs]
  unfamiliar_diags_def [spec_defs] attr_values_def [spec_defs] values_of_def [spec_defs]
  connect_values_def [spec_defs] flag_set_def [spec_defs] wf_entry_def [spec_defs]
  wf_obj_def [spec_defs] proto_line_def [spec_defs] line_obj_def [spec_defs]

section \<open>Lemmas\<close>

lemma parse_line_split:
  "parse_line file (obj, g) l =
     map_sum (\<lambda>e. (e, line_gstate file l g)) (\<lambda>obj'. (obj', line_gstate file l g)) (line_obj obj l)"
  by (auto simp: parse_line_def line_obj_def line_gstate_def line_key_def line_rest_def flag_keys_def
        Let_def split: prod.splits sum.splits)

lemma parse_lines_split:
  "parse_lines file (obj, g) ls =
     map_sum (\<lambda>(e, n). (e, fold (line_gstate file) (take (Suc n) ls) g))
             (\<lambda>obj'. (obj', fold (line_gstate file) ls g)) (obj_lines obj ls)"
proof (induction ls arbitrary: obj g)
  case Nil
  then show ?case by simp
next
  case (Cons l ls)
  then show ?case
    by (cases "line_obj obj l"; cases "obj_lines (projr (line_obj obj l)) ls")
       (auto simp: parse_line_split)
qed

lemma fold_line_gstate:
  "fold (line_gstate file) ls g =
     g\<lparr>warnings := warnings g @ unfamiliar_diags file ls,
       err := (err g \<or> unfamiliar_diags file ls \<noteq> [])\<rparr>"
  by (induction ls arbitrary: g) (auto simp: line_gstate_def warn_def unfamiliar_diags_def kv_lines_def)

lemma spread_or_empty_Inr: "spread_or_empty obj k = Inr vs \<Longrightarrow> vs = attr_values obj k"
  by (auto simp: spread_or_empty_def attr_values_def split: option.splits jsval.splits if_splits)

lemma line_obj_values:
  "line_obj obj l = Inr obj' \<Longrightarrow> k \<notin> set (''ConnectTo'' # flag_keys) \<Longrightarrow>
   attr_values obj' k = attr_values obj k @ values_of k [l]"
  by (auto simp: line_obj_def values_of_def kv_lines_def attr_values_def
      split: if_splits sum.splits dest!: spread_or_empty_Inr)

lemma obj_lines_values:
  "obj_lines obj ls = Inr obj' \<Longrightarrow> k \<notin> set (''ConnectTo'' # flag_keys) \<Longrightarrow>
   attr_values obj' k = attr_values obj k @ values_of k ls"
proof (induction ls arbitrary: obj)
  case Nil
  then show ?case by (simp add: values_of_def kv_lines_def)
next
  case (Cons l ls)
  then obtain obj1 where 1: "line_obj obj l = Inr obj1" and 2: "obj_lines obj1 ls = Inr obj'"
    by (auto split: sum.splits)
  from Cons.IH [OF 2 Cons.prems(2)] line_obj_values [OF 1 Cons.prems(2)] show ?case
    by (simp add: values_of_def kv_lines_def)
qed

lemma line_obj_connect:
  "line_obj obj l = Inr obj' \<Longrightarrow>
   attr_values obj' ''ConnectTo'' = attr_values obj ''ConnectTo'' @ connect_values [l]"
  by (auto simp: line_obj_def connect_values_def kv_lines_def attr_values_def flag_keys_def
      split: if_splits sum.splits dest!: spread_or_empty_Inr)

lemma line_obj_flag:
  "line_obj obj l = Inr obj' \<Longrightarrow> k \<in> set flag_keys \<Longrightarrow>
   js_get obj' k = (if flag_set k [l] then Some JTrue else js_get obj k)"
  by (auto simp: line_obj_def flag_set_def kv_lines_def flag_keys_def
      split: if_splits sum.splits)

lemma obj_lines_connect:
  "obj_lines obj ls = Inr obj' \<Longrightarrow>
   attr_values obj' ''ConnectTo'' = attr_values obj ''ConnectTo'' @ connect_values ls"
proof (induction ls arbitrary: obj)
  case Nil
  then show ?case by (simp add: connect_values_def kv_lines_def)
next
  case (Cons l ls)
  then obtain obj1 where 1: "line_obj obj l = Inr obj1" and 2: "obj_lines obj1 ls = Inr obj'"
    by (auto split: sum.splits)
  from Cons.IH [OF 2] line_obj_connect [OF 1] show ?case
    by (simp add: connect_values_def kv_lines_def)
qed

lemma obj_lines_flag:
  "obj_lines obj ls = Inr obj' \<Longrightarrow> k \<in> set flag_keys \<Longrightarrow>
   js_get obj' k = (if flag_set k ls then Some JTrue else js_get obj k)"
proof (induction ls arbitrary: obj)
  case Nil
  then show ?case by (simp add: flag_set_def kv_lines_def)
next
  case (Cons l ls)
  then obtain obj1 where 1: "line_obj obj l = Inr obj1" and 2: "obj_lines obj1 ls = Inr obj'"
    by (auto split: sum.splits)
  from Cons.IH [OF 2 Cons.prems(2)] line_obj_flag [OF 1 Cons.prems(2)] show ?case
    by (auto simp: flag_set_def kv_lines_def)
qed

lemma set_js_set_sub: "set (js_set k v obj) \<subseteq> insert (k, v) (set obj)"
  by (induction obj) (auto split: if_splits)

lemma wf_obj_js_set: "wf_obj obj \<Longrightarrow> wf_entry (k, v) \<Longrightarrow> wf_obj (js_set k v obj)"
  using set_js_set_sub [of k v obj] by (auto simp: wf_obj_def list_all_iff)

lemma wf_obj_get: "wf_obj obj \<Longrightarrow> js_get obj k = Some v \<Longrightarrow> wf_entry (k, v)"
  by (auto simp: wf_obj_def list_all_iff dest: map_of_SomeD)

lemma proto_not_special:
  "''ConnectTo'' \<notin> set object_proto_props" "k \<in> set flag_keys \<Longrightarrow> k \<notin> set object_proto_props"
  by (auto simp: object_proto_props_def flag_keys_def)

lemma spread_or_empty_wf_Inr:
  "wf_obj obj \<Longrightarrow> k \<notin> set flag_keys \<Longrightarrow> spread_or_empty obj k = Inr vs \<Longrightarrow> k \<notin> set object_proto_props"
  by (auto simp: spread_or_empty_def wf_entry_def split: option.splits jsval.splits if_splits
      dest: wf_obj_get)

lemma line_obj_wf:
  assumes wf: "wf_obj obj" and eq: "line_obj obj l = Inr obj'"
  shows "wf_obj obj'"
proof (cases "CHR ''='' \<in> set l")
  case False
  with eq wf show ?thesis by (simp add: line_obj_def)
next
  case True
  consider (ct) "line_key l = ''ConnectTo''"
    | (flag) "line_key l \<noteq> ''ConnectTo''" "line_key l \<in> set flag_keys"
    | (other) "line_key l \<noteq> ''ConnectTo''" "line_key l \<notin> set flag_keys"
    by blast
  then show ?thesis
  proof cases
    case ct
    with True eq obtain vs where
      "obj' = js_set ''ConnectTo'' (Arr (vs @ map js_trim (js_split CHR '','' (line_rest l)))) obj"
      by (auto simp: line_obj_def)
    then show ?thesis
      by (simp add: wf wf_obj_js_set wf_entry_def proto_not_special flag_keys_def)
  next
    case flag
    with True eq show ?thesis
      by (auto simp: line_obj_def wf wf_obj_js_set wf_entry_def proto_not_special)
  next
    case other
    with True eq obtain vs where sp: "spread_or_empty obj (line_key l) = Inr vs"
      and o: "obj' = js_set (line_key l) (Arr (vs @ [js_trim (line_rest l)])) obj"
      by (auto simp: line_obj_def)
    have "line_key l \<notin> set object_proto_props"
      by (rule spread_or_empty_wf_Inr [OF wf other(2) sp])
    with o other show ?thesis
      by (simp add: wf wf_obj_js_set wf_entry_def)
  qed
qed

lemma line_obj_Inl_iff:
  assumes "wf_obj obj"
  shows "isl (line_obj obj l) \<longleftrightarrow> proto_line l"
  using assms
  by (auto simp: line_obj_def proto_line_def spread_or_empty_def proto_not_special wf_entry_def
      flag_keys_def split: option.splits jsval.splits dest: wf_obj_get)

lemma obj_lines_wf: "wf_obj obj \<Longrightarrow> obj_lines obj ls = Inr obj' \<Longrightarrow> wf_obj obj'"
proof (induction ls arbitrary: obj)
  case Nil
  then show ?case by simp
next
  case (Cons l ls)
  then obtain obj1 where 1: "line_obj obj l = Inr obj1" and 2: "obj_lines obj1 ls = Inr obj'"
    by (auto split: sum.splits)
  show ?case by (rule Cons.IH [OF line_obj_wf [OF Cons.prems(1) 1] 2])
qed

lemma obj_lines_Inl_iff: "wf_obj obj \<Longrightarrow> isl (obj_lines obj ls) \<longleftrightarrow> list_ex proto_line ls"
proof (induction ls arbitrary: obj)
  case Nil
  then show ?case by simp
next
  case (Cons l ls)
  show ?case
  proof (cases "line_obj obj l")
    case (Inl e)
    with line_obj_Inl_iff [OF Cons.prems, of l] show ?thesis by simp
  next
    case (Inr obj1)
    with line_obj_Inl_iff [OF Cons.prems, of l] Cons.IH [OF line_obj_wf [OF Cons.prems Inr]]
    show ?thesis by (cases "obj_lines obj1 ls") auto
  qed
qed


section \<open>Properties of one file's parse\<close>

text \<open>C4. Value accumulation: after the lines of a file are parsed without an exception,
  every key other than \<open>ConnectTo\<close>, \<open>DefaultRoute\<close> and \<open>SplitFiles\<close> holds the
  values it held before followed by the trimmed values of its lines, one per line, in
  file order.\<close>

theorem parse_lines_values:
  assumes "parse_lines file (obj, g) ls = Inr (obj', g')"
    and "k \<notin> set (''ConnectTo'' # flag_keys)"
  shows "attr_values obj' k = attr_values obj k @ values_of k ls"
  using assms obj_lines_values by (auto simp: parse_lines_split)

text \<open>C5. ConnectTo union: the \<open>ConnectTo\<close> list is the previous list followed by the
  trimmed comma-separated pieces of every \<open>ConnectTo\<close> line, in file order.\<close>

theorem parse_lines_connect:
  assumes "parse_lines file (obj, g) ls = Inr (obj', g')"
  shows "attr_values obj' ''ConnectTo'' = attr_values obj ''ConnectTo'' @ connect_values ls"
  using assms obj_lines_connect by (auto simp: parse_lines_split)

text \<open>C6. Boolean flags: \<open>DefaultRoute\<close> and \<open>SplitFiles\<close> are \<open>true\<close> after the parse
  exactly when they were before or some line sets them to \<open>true\<close>; no other value resets
  them.\<close>

theorem parse_lines_flag:
  assumes "parse_lines file (obj, g) ls = Inr (obj', g')"
    and "k \<in> set flag_keys"
  shows "js_get obj' k = (if flag_set k ls then Some JTrue else js_get obj k)"
  using assms obj_lines_flag by (auto simp: parse_lines_split)

text \<open>C14. The parse keeps the node object well formed: distinct keys, \<open>true\<close> only under
  \<open>DefaultRoute\<close> and \<open>SplitFiles\<close>, a non-empty array under every other key, and no
  key inherited from \<open>Object.prototype\<close>; so every \<open>obj[key][0]\<close> of the renderer is
  defined.\<close>

theorem parse_lines_wf:
  assumes "wf_obj obj" and "parse_lines file (obj, g) ls = Inr (obj', g')"
  shows "wf_obj obj'"
  using assms obj_lines_wf by (auto simp: parse_lines_split)

end
