(* ===== verification/Registry.thy ===== *)
theory Registry
  imports Parser
begin

text \<open>
  NodeRegistry: \<open>src/genConf.js\<close> lines 31--59.  The script reads the directory
  \<open>nodes\<close>, and for every entry whose name ends in \<open>.wg\<close> creates the node object
  \<open>nodes[basename]\<close>, runs the line handler of \<open>Parser\<close> over the file's lines and then
  checks the required keys.  The directory listing and the file contents are the input:
  a list of (entry name, content) pairs in \<open>readdirSync\<close> order.  After the loop the
  script exits with status -1 if \<open>err\<close> is set.
\<close>

section \<open>Operations\<close>

text \<open>\<open>path.basename(file, '.wg')\<close> for a directory entry (no \<open>/\<close>) that ends in
  \<open>.wg\<close>: the suffix is removed.\<close>

definition node_name :: "string \<Rightarrow> string" where
  "node_name file = take (length file - 3) file"

definition is_wg :: "string \<Rightarrow> bool" where
  "is_wg file \<longleftrightarrow> js_ends_with ''.wg'' file"

text \<open>Lines 54--57: one warning per required key the object lacks, in the order of
  \<open>must_have\<close>.\<close>

definition check_must_have :: "string \<Rightarrow> node_obj \<Rightarrow> gstate \<Rightarrow> gstate" where
  "check_must_have file obj g =
     fold (\<lambda>mh g. if js_has obj mh then g else warn (Missing file mh) g) must_have g"

text \<open>Lines 37--57, the body of the \<open>forEach\<close> over the directory.  The object is put
  into \<open>nodes\<close> when it is created (line 38) and filled through its alias \<open>obj\<close>; since
  nothing reads \<open>nodes\<close> while the lines are handled, storing the filled object at the end
  gives the same object at the same position.\<close>

definition load_file :: "gstate \<Rightarrow> string \<times> string \<Rightarrow> (js_error \<times> gstate) + gstate" where
  "load_file g entry =
     (case entry of (file, content) \<Rightarrow>
       if \<not> is_wg file then Inr g
       else
         (let name = node_name file;
              g0 = g\<lparr>nodes := js_set name [] (nodes g)\<rparr>
          in case parse_lines file ([], g0) (js_split_lines content) of
               Inl e \<Rightarrow> Inl e
             | Inr (obj, g1) \<Rightarrow>
                 Inr (check_must_have file obj (g1\<lparr>nodes := js_set name obj (nodes g1)\<rparr>))))"

fun load_all :: "gstate \<Rightarrow> (string \<times> string) list \<Rightarrow> (js_error \<times> gstate) + gstate" where
  "load_all g [] = Inr g"
| "load_all g (f # fs) =
     (case load_file g f of
        Inl e \<Rightarrow> Inl e
      | Inr g' \<Rightarrow> load_all g' fs)"

definition init_state :: gstate where
  "init_state = \<lparr>nodes = [], err = False, warnings = []\<rparr>"

section \<open>Specification of the registry\<close>

text \<open>The diagnostics one file yields: its unfamiliar keys line by line, then its missing
  required keys; and the keys its parsed object has.\<close>

definition missing_diags :: "string \<Rightarrow> node_obj \<Rightarrow> diag list" where
  "missing_diags file obj = [Missing file mh. mh \<leftarrow> must_have, \<not> js_has obj mh]"

definition wf_registry :: "node_obj js_obj \<Rightarrow> bool" where
  "wf_registry ns \<longleftrightarrow> distinct (map fst ns) \<and> list_all (\<lambda>p. wf_obj (snd p)) ns"

definition valid_node :: "node_obj \<Rightarrow> bool" where
  "valid_node obj \<longleftrightarrow> wf_obj obj \<and> list_all (\<lambda>k. k \<in> set allowed_keys) (map fst obj)
     \<and> list_all (js_has obj) must_have"

definition file_obj :: "string \<Rightarrow> node_obj" where
  "file_obj content = (case obj_lines [] (js_split_lines content) of Inr obj \<Rightarrow> obj | Inl _ \<Rightarrow> [])"

definition file_crashes :: "string \<Rightarrow> bool" where
  "file_crashes content \<longleftrightarrow> list_ex proto_line (js_split_lines content)"

definition file_diags :: "string \<Rightarrow> string \<Rightarrow> diag list" where
  "file_diags file content =
     unfamiliar_diags file (js_split_lines content) @ missing_diags file (file_obj content)"

definition wg_files :: "(string \<times> string) list \<Rightarrow> (string \<times> string) list" where
  "wg_files fs = filter (\<lambda>p. is_wg (fst p)) fs"

definition spec_diags :: "(string \<times> string) list \<Rightarrow> diag list" where
  "spec_diags fs = concat (map (\<lambda>p. file_diags (fst p) (snd p)) (wg_files fs))"

definition any_crash :: "(string \<times> string) list \<Rightarrow> bool" where
  "any_crash fs \<longleftrightarrow> list_ex (\<lambda>p. file_crashes (snd p)) (wg_files fs)"

definition add_node :: "node_obj js_obj \<Rightarrow> string \<times> string \<Rightarrow> node_obj js_obj" where
  "add_node ns p = js_set (node_name (fst p)) (file_obj (snd p)) ns"

declare node_name_def [model_defs] is_wg_def [model_defs] check_must_have_def [model_defs]
  load_file_def [model_defs] init_state_def [model_defs]
declare file_obj_def [spec_defs] file_crashes_def [spec_defs] file_diags_def [spec_defs]
  wg_files_def [spec_defs] spec_diags_def [spec_defs] any_crash_def [spec_defs]
  add_node_def [spec_defs] missing_diags_def [spec_defs] wf_registry_def [spec_defs]
  valid_node_def [spec_defs]

section \<open>Lemmas\<close>

lemma check_must_have_eq:
  "check_must_have file obj g =
     g\<lparr>warnings := warnings g @ missing_diags file obj,
       err := (err g \<or> missing_diags file obj \<noteq> [])\<rparr>"
  by (simp add: check_must_have_def missing_diags_def must_have_def warn_def)

lemma wf_obj_Nil: "wf_obj []"
  by (simp add: wf_obj_def)

lemma js_set_js_set [simp]: "js_set k v (js_set k w obj) = js_set k v obj"
  by (induction obj) auto

lemma file_obj_Inr: "\<not> file_crashes c \<Longrightarrow> obj_lines [] (js_split_lines c) = Inr (file_obj c)"
  using obj_lines_Inl_iff [OF wf_obj_Nil, of "js_split_lines c"]
  by (cases "obj_lines [] (js_split_lines c)") (auto simp: file_obj_def file_crashes_def)

lemma load_file_ok:
  assumes "is_wg f" and "\<not> file_crashes c"
  shows "load_file g (f, c) =
     Inr (g\<lparr>nodes := add_node (nodes g) (f, c),
           warnings := warnings g @ file_diags f c,
           err := (err g \<or> file_diags f c \<noteq> [])\<rparr>)"
  using assms file_obj_Inr [OF assms(2)]
  by (simp add: load_file_def parse_lines_split fold_line_gstate check_must_have_eq file_diags_def
      add_node_def Let_def)

lemma load_file_crash:
  assumes "is_wg f" and "file_crashes c"
  shows "isl (load_file g (f, c))"
proof -
  have "isl (obj_lines [] (js_split_lines c))"
    using assms(2) obj_lines_Inl_iff [OF wf_obj_Nil] by (simp add: file_crashes_def)
  then show ?thesis using assms(1)
    by (cases "obj_lines [] (js_split_lines c)") (auto simp: load_file_def parse_lines_split Let_def)
qed

lemma load_file_skip: "\<not> is_wg f \<Longrightarrow> load_file g (f, c) = Inr g"
  by (simp add: load_file_def)

lemma load_all_ok:
  "\<not> any_crash fs \<Longrightarrow> load_all g fs =
     Inr (g\<lparr>nodes := foldl add_node (nodes g) (wg_files fs),
           warnings := warnings g @ spec_diags fs,
           err := (err g \<or> spec_diags fs \<noteq> [])\<rparr>)"
proof (induction fs arbitrary: g)
  case Nil
  then show ?case by (simp add: wg_files_def spec_diags_def)
next
  case (Cons p fs)
  obtain f c where p: "p = (f, c)" by fastforce
  show ?case
  proof (cases "is_wg f")
    case True
    with Cons.prems p have "\<not> file_crashes c" and "\<not> any_crash fs"
      by (auto simp: any_crash_def wg_files_def)
    with True Cons.IH p show ?thesis
      by (simp add: load_file_ok wg_files_def spec_diags_def)
  next
    case False
    with Cons.prems p have "\<not> any_crash fs"
      by (auto simp: any_crash_def wg_files_def)
    with False Cons.IH p show ?thesis
      by (simp add: load_file_skip wg_files_def spec_diags_def)
  qed
qed

lemma load_all_crash_iff: "isl (load_all g fs) \<longleftrightarrow> any_crash fs"
proof (induction fs arbitrary: g)
  case Nil
  then show ?case by (simp add: any_crash_def wg_files_def)
next
  case (Cons p fs)
  obtain f c where p: "p = (f, c)" by fastforce
  show ?case
  proof (cases "is_wg f \<and> file_crashes c")
    case True
    then have "isl (load_file g (f, c))" by (simp add: load_file_crash)
    with True p show ?thesis
      by (cases "load_file g (f, c)") (auto simp: any_crash_def wg_files_def)
  next
    case False
    with p Cons.IH show ?thesis
      by (auto simp: load_file_ok load_file_skip any_crash_def wg_files_def)
  qed
qed


lemma file_obj_wf: "wf_obj (file_obj c)"
  by (auto simp: file_obj_def wf_obj_Nil split: sum.splits intro: obj_lines_wf [OF wf_obj_Nil])

lemma wf_registry_add_node: "wf_registry ns \<Longrightarrow> wf_registry (add_node ns p)"
  using set_js_set_sub [of "node_name (fst p)" "file_obj (snd p)" ns]
  by (auto simp: wf_registry_def add_node_def list_all_iff file_obj_wf)

lemma wf_registry_foldl: "wf_registry ns \<Longrightarrow> wf_registry (foldl add_node ns ps)"
  by (induction ps arbitrary: ns) (auto intro: wf_registry_add_node)

lemma keys_foldl_add_node:
  "distinct (map (\<lambda>p. node_name (fst p)) ps) \<Longrightarrow> set (map fst ns) \<inter> set (map (\<lambda>p. node_name (fst p)) ps) = {} \<Longrightarrow>
   map fst (foldl add_node ns ps) = map fst ns @ map (\<lambda>p. node_name (fst p)) ps"
  by (induction ps arbitrary: ns) (auto simp: add_node_def keys_js_set)

lemma line_obj_shape:
  "line_obj obj l = Inr obj' \<Longrightarrow>
   obj' = obj \<or> (CHR ''='' \<in> set l \<and> (\<exists>v. obj' = js_set (line_key l) v obj))"
  by (auto simp: line_obj_def split: if_splits)

lemma line_obj_keys:
  "line_obj obj l = Inr obj' \<Longrightarrow> fst ` set obj' \<subseteq> fst ` set obj \<union> line_key ` set (kv_lines [l])"
  by (drule line_obj_shape) (force simp: kv_lines_def dest!: set_js_set_sub [THEN subsetD])

lemma obj_lines_keys:
  "obj_lines obj ls = Inr obj' \<Longrightarrow> fst ` set obj' \<subseteq> fst ` set obj \<union> line_key ` set (kv_lines ls)"
proof (induction ls arbitrary: obj)
  case Nil
  then show ?case by simp
next
  case (Cons l ls)
  then obtain obj1 where 1: "line_obj obj l = Inr obj1" and 2: "obj_lines obj1 ls = Inr obj'"
    by (auto split: sum.splits)
  have "line_key ` set (kv_lines (l # ls)) = line_key ` set (kv_lines [l]) \<union> line_key ` set (kv_lines ls)"
    by (auto simp: kv_lines_def)
  with Cons.IH [OF 2] line_obj_keys [OF 1] show ?case
    by blast
qed

lemma file_obj_valid:
  assumes "\<not> file_crashes c" and "file_diags f c = []"
  shows "valid_node (file_obj c)"
proof -
  have keys: "fst ` set (file_obj c) \<subseteq> line_key ` set (kv_lines (js_split_lines c))"
    using obj_lines_keys [OF file_obj_Inr [OF assms(1)]] by simp
  have "\<forall>l \<in> set (kv_lines (js_split_lines c)). line_key l \<in> set allowed_keys"
    using assms(2) by (auto simp: file_diags_def unfamiliar_diags_def filter_empty_conv)
  with keys have "list_all (\<lambda>k. k \<in> set allowed_keys) (map fst (file_obj c))"
    by (auto simp: list_all_iff)
  moreover have "list_all (js_has (file_obj c)) must_have"
    using assms(2) by (auto simp: file_diags_def missing_diags_def filter_empty_conv list_all_iff)
  ultimately show ?thesis by (simp add: valid_node_def file_obj_wf)
qed

section \<open>Properties\<close>

text \<open>C15. Invariant of the global state: after the directory loop completes, \<open>err\<close> is
  set exactly when a warning was printed.\<close>

theorem load_all_err_iff_warnings:
  assumes "load_all init_state fs = Inr g"
  shows "err g \<longleftrightarrow> warnings g \<noteq> []"
proof -
  have "\<not> any_crash fs"
    using assms load_all_crash_iff [of init_state fs] by auto
  with assms have "g = \<lparr>nodes = foldl add_node [] (wg_files fs), err = (spec_diags fs \<noteq> []),
      warnings = spec_diags fs\<rparr>"
    by (simp add: load_all_ok init_state_def)
  then show ?thesis by simp
qed

text \<open>C16. Round trip of node names: the name derived from a \<open>.wg\<close> entry, with the
  suffix put back, is the entry's name; so distinct entries give distinct nodes.\<close>

theorem node_name_roundtrip:
  assumes "is_wg f"
  shows "node_name f @ ''.wg'' = f"
proof -
  have "drop (length f - 3) f = ''.wg''"
    using assms by (simp add: is_wg_def js_ends_with_def numeral_3_eq_3)
  then show ?thesis
    by (metis append_take_drop_id node_name_def)
qed

end
