(* ===== verification/Topology.thy ===== *)
theory Topology
  imports Registry
begin

text \<open>
  PeerTopologyResolver: \<open>src/genConf.js\<close> lines 74--78, the condition under which the
  peer loop skips a candidate peer (\<open>continue\<close>).  \<open>skip_peer\<close> evaluates the four
  disjuncts of the source left to right with short-circuit \<open>||\<close>; calling
  \<open>includes\<close> on a \<open>ConnectTo\<close> value that is not an array would throw.  The inclusion
  rule of the specification is \<open>peer_rule\<close>; on well-formed node objects the code
  computes exactly its negation, and the rule is symmetric.  Over a whole registry the
  decisions form the peer graph \<open>peer_edges\<close>, which is undirected and has no loops.
\<close>

section \<open>The code\<close>

text \<open>\<open>v.includes(x)\<close>: defined on arrays; \<open>true.includes\<close> is \<open>undefined\<close>, and
  calling it throws.\<close>

definition js_includes :: "jsval \<Rightarrow> string \<Rightarrow> js_error + bool" where
  "js_includes v x =
     (case v of
        Arr xs \<Rightarrow> Inr (x \<in> set xs)
      | JTrue \<Rightarrow> Inl (TypeError ''includes is not a function''))"

text \<open>\<open>'ConnectTo' in obj && !obj.ConnectTo.includes(name)\<close> (lines 76 and 77).\<close>

definition excluded_by :: "node_obj \<Rightarrow> string \<Rightarrow> js_error + bool" where
  "excluded_by obj name =
     (case js_get obj ''ConnectTo'' of
        None \<Rightarrow> Inr False
      | Some v \<Rightarrow> map_sum id Not (js_includes v name))"

text \<open>Lines 75--78: the node \<open>(nodeName, nodeObj)\<close> skips the candidate
  \<open>(peerName, peerObj)\<close>.\<close>

definition skip_peer :: "string \<times> node_obj \<Rightarrow> string \<times> node_obj \<Rightarrow> js_error + bool" where
  "skip_peer nd pr =
     (case nd of (nodeName, nodeObj) \<Rightarrow> case pr of (peerName, peerObj) \<Rightarrow>
       js_or (Inr (peerName = nodeName))
        (js_or (excluded_by nodeObj peerName)
          (js_or (excluded_by peerObj nodeName)
            (Inr (\<not> js_has peerObj ''Endpoint'' \<and> \<not> js_has nodeObj ''Endpoint'')))))"

section \<open>The inclusion rule of the specification\<close>

definition connect_allows :: "node_obj \<Rightarrow> string \<Rightarrow> bool" where
  "connect_allows obj name \<longleftrightarrow>
     \<not> js_has obj ''ConnectTo'' \<or> name \<in> set (attr_values obj ''ConnectTo'')"

definition peer_rule :: "string \<times> node_obj \<Rightarrow> string \<times> node_obj \<Rightarrow> bool" where
  "peer_rule nd pr \<longleftrightarrow>
     fst pr \<noteq> fst nd \<and> connect_allows (snd nd) (fst pr) \<and> connect_allows (snd pr) (fst nd)
     \<and> (js_has (snd nd) ''Endpoint'' \<or> js_has (snd pr) ''Endpoint'')"

text \<open>The peers the resolver should list for a node: the registry in iteration order,
  filtered by the rule.\<close>

definition peers_spec :: "node_obj js_obj \<Rightarrow> string \<times> node_obj \<Rightarrow> (string \<times> node_obj) list" where
  "peers_spec ns nd = filter (peer_rule nd) (js_entries ns)"

text \<open>The peer graph the code builds: an edge from each node to every candidate the
  loop of lines 74--89 does not skip, in registry order.\<close>

definition peer_edges :: "node_obj js_obj \<Rightarrow> (string \<times> string) list" where
  "peer_edges ns = [(fst nd, fst pr). nd \<leftarrow> js_entries ns, pr \<leftarrow> js_entries ns, skip_peer nd pr = Inr False]"

declare js_includes_def [model_defs] excluded_by_def [model_defs] skip_peer_def [model_defs]
declare connect_allows_def [spec_defs] peer_rule_def [spec_defs] peers_spec_def [spec_defs]
  peer_edges_def [spec_defs]

section \<open>Lemmas\<close>

lemma wf_obj_connect_arr:
  "wf_obj obj \<Longrightarrow> js_get obj ''ConnectTo'' = Some v \<Longrightarrow> v = Arr (attr_values obj ''ConnectTo'')"
  by (cases v) (auto simp: attr_values_def wf_entry_def flag_keys_def dest: wf_obj_get)

lemma excluded_by_wf:
  "wf_obj obj \<Longrightarrow> excluded_by obj name = Inr (\<not> connect_allows obj name)"
proof (cases "js_get obj ''ConnectTo''")
  case None
  then have "\<not> js_has obj ''ConnectTo''" by (simp add: map_of_eq_None_iff)
  with None show ?thesis by (simp add: excluded_by_def connect_allows_def)
next
  case (Some v)
  assume "wf_obj obj"
  then have v: "v = Arr (attr_values obj ''ConnectTo'')"
    using Some by (rule wf_obj_connect_arr)
  from Some have "js_has obj ''ConnectTo''"
    by (force dest: map_of_SomeD)
  with Some v show ?thesis
    by (simp add: excluded_by_def connect_allows_def js_includes_def)
qed

text \<open>Refinement: on well-formed objects the skip test never throws and is the negation
  of the rule.\<close>

lemma skip_peer_refines:
  assumes "wf_obj (snd nd)" and "wf_obj (snd pr)"
  shows "skip_peer nd pr = Inr (\<not> peer_rule nd pr)"
proof -
  obtain a oa b ob where p: "nd = (a, oa)" "pr = (b, ob)" by fastforce
  with assms show ?thesis
    by (cases "b = a") (auto simp: skip_peer_def peer_rule_def excluded_by_wf js_or_Inr)
qed

lemma peer_rule_sym: "peer_rule nd pr \<longleftrightarrow> peer_rule pr nd"
  by (auto simp: peer_rule_def)

lemma skip_self: "fst pr = fst nd \<Longrightarrow> skip_peer nd pr = Inr True"
  by (cases nd, cases pr) (simp add: skip_peer_def)

lemma peer_edges_iff:
  "(a, b) \<in> set (peer_edges ns) \<longleftrightarrow>
   (\<exists>nd \<in> set ns. \<exists>pr \<in> set ns. fst nd = a \<and> fst pr = b \<and> skip_peer nd pr = Inr False)"
  by (auto simp: peer_edges_def)

section \<open>Properties\<close>

text \<open>C1. Symmetry of inclusion: for well-formed node objects, node \<open>A\<close> skips \<open>B\<close>
  exactly when \<open>B\<close> skips \<open>A\<close>, so a pair of nodes peers in both configurations or in
  neither.\<close>

theorem skip_peer_symmetric:
  assumes "wf_obj oa" and "wf_obj ob"
  shows "skip_peer (a, oa) (b, ob) = skip_peer (b, ob) (a, oa)"
  using assms skip_peer_refines [of "(a, oa)" "(b, ob)"] skip_peer_refines [of "(b, ob)" "(a, oa)"]
  by (simp add: peer_rule_sym)

text \<open>C13. The peer graph is undirected and loop-free: on a well-formed registry a node
  never peers with itself, peering is mutual, and edges join registry nodes only (the
  invariant of section 8 of the specification, for the whole registry).\<close>

theorem peer_graph_undirected:
  assumes "wf_registry ns"
  shows "sym (set (peer_edges ns)) \<and> irrefl (set (peer_edges ns)) \<and>
     set (peer_edges ns) \<subseteq> set (map fst ns) \<times> set (map fst ns)"
proof -
  have wf: "wf_obj (snd p)" if "p \<in> set ns" for p
    using assms that by (auto simp: wf_registry_def list_all_iff)
  have "(b, a) \<in> set (peer_edges ns)" if "(a, b) \<in> set (peer_edges ns)" for a b
  proof -
    from that obtain nd pr where nd: "nd \<in> set ns" and pr: "pr \<in> set ns"
      and names: "fst nd = a" "fst pr = b" and s: "skip_peer nd pr = Inr False"
      by (auto simp: peer_edges_iff)
    from s skip_peer_refines [OF wf [OF nd] wf [OF pr]] have "peer_rule nd pr" by simp
    then have "peer_rule pr nd" by (simp add: peer_rule_sym)
    with skip_peer_refines [OF wf [OF pr] wf [OF nd]] have "skip_peer pr nd = Inr False" by simp
    with nd pr names show ?thesis by (auto simp: peer_edges_iff)
  qed
  then have "sym (set (peer_edges ns))" by (auto intro: symI)
  moreover have "irrefl (set (peer_edges ns))"
    by (auto simp: irrefl_def peer_edges_iff skip_self)
  moreover have "set (peer_edges ns) \<subseteq> set (map fst ns) \<times> set (map fst ns)"
    by (auto simp: peer_edges_iff)
  ultimately show ?thesis by blast
qed


end
