(* ===== verification/Render.thy ===== *)
theory Render
  imports Topology
begin

text \<open>
  ConfigRenderer: \<open>src/genConf.js\<close> lines 29 and 61--91.  For one node the script builds
  the \<open>[Interface]\<close> block (lines 62--70), then walks the registry (line 74), skips the
  candidates \<open>Topology.skip_peer\<close> rejects, appends one \<open>[Peer]\<close> section per accepted
  peer to the accumulator \<open>peers\<close> (lines 79--86) and writes files: with \<open>SplitFiles\<close>
  one file per accepted peer holding the interface block and everything accumulated so far
  (line 88), otherwise one file per node at the end (line 91).  A written file is a pair
  (path, content); the files written so far are a list in write order, and an exception
  keeps the files already written.
\<close>

section \<open>Constants\<close>

definition exclude_interface :: "string list" where
  "exclude_interface =
     [''ConnectTo'', ''DefaultRoute'', ''Endpoint'', ''Network'', ''PublicKey'',
      ''PersistentKeepalive'', ''SplitFiles'']"

definition output_dir :: string where
  "output_dir = ''conf_output''"

definition placeholder_line :: string where
  "placeholder_line = ''PrivateKey = >>>REPLACE WITH PRIVATE KEY<<<\<newline>''"

text \<open>The text of line 84 when the node has \<open>DefaultRoute\<close>, as written in the source
  (two spaces before \<open>0::/1\<close>).\<close>

definition default_route_tail :: string where
  "default_route_tail = '', 0.0.0.0/1, 128.0.0.0/1,  0::/1, 8000::/1\<newline>''"

type_synonym file_write = "string \<times> string"

section \<open>JavaScript reads used by the templates\<close>

text \<open>\<open>`${obj[k][0]}`\<close>: the first element of an array; \<open>undefined[0]\<close> throws; the
  element 0 of an empty array or of \<open>true\<close> is \<open>undefined\<close>, printed as such.\<close>

definition js_index0 :: "jsval option \<Rightarrow> js_error + string" where
  "js_index0 v =
     (case v of
        None \<Rightarrow> Inl (TypeError ''Cannot read properties of undefined (reading 0)'')
      | Some (Arr (x # _)) \<Rightarrow> Inr x
      | Some _ \<Rightarrow> Inr ''undefined'')"

section \<open>The interface block\<close>

text \<open>Lines 69--70: \<open>for (const data of value) iface += `${key} = ${data}\n`\<close>;
  iterating \<open>true\<close> throws.\<close>

definition iface_values :: "string \<Rightarrow> jsval \<Rightarrow> js_error + string" where
  "iface_values key v =
     (case v of
        Arr vs \<Rightarrow> Inr (concat (map (\<lambda>d. key @ '' = '' @ d @ ''\<newline>'') vs))
      | JTrue \<Rightarrow> Inl (TypeError ''value is not iterable''))"

text \<open>Lines 67--70: the loop over \<open>Object.entries(nodeObj)\<close>.\<close>

fun iface_entries :: "string \<Rightarrow> (string \<times> jsval) list \<Rightarrow> js_error + string" where
  "iface_entries acc [] = Inr acc"
| "iface_entries acc ((k, v) # es) =
     (if k \<in> set exclude_interface then iface_entries acc es
      else sbind (iface_values k v) (\<lambda>s. iface_entries (acc @ s) es))"

text \<open>Lines 62--70.\<close>

definition iface_block :: "node_obj \<Rightarrow> js_error + string" where
  "iface_block obj =
     iface_entries
       (''[Interface]\<newline>'' @ (if js_has obj ''PrivateKey'' then [] else placeholder_line))
       (js_entries obj)"

section \<open>One peer section\<close>

text \<open>Lines 79--86, the template expressions evaluated left to right.\<close>

definition peer_section :: "string \<times> node_obj \<Rightarrow> string \<times> node_obj \<Rightarrow> js_error + string" where
  "peer_section nd pr =
     (case nd of (nodeName, nodeObj) \<Rightarrow> case pr of (peerName, peerObj) \<Rightarrow>
       sbind (js_index0 (js_get peerObj ''PublicKey'')) (\<lambda>pk.
       sbind (js_index0 (js_get peerObj ''Address'')) (\<lambda>addr.
       sbind (if js_has peerObj ''Network''
              then map_sum id (\<lambda>n. '', '' @ n) (js_index0 (js_get peerObj ''Network''))
              else Inr []) (\<lambda>net.
       sbind (if js_has peerObj ''Endpoint''
              then map_sum id (\<lambda>e. ''Endpoint = '' @ e @ ''\<newline>'') (js_index0 (js_get peerObj ''Endpoint''))
              else Inr []) (\<lambda>ep.
       sbind (if js_has nodeObj ''PersistentKeepalive''
              then map_sum id (\<lambda>k. ''PersistentKeepalive = '' @ k @ ''\<newline>'')
                     (js_index0 (js_get nodeObj ''PersistentKeepalive''))
              else Inr []) (\<lambda>ka.
       Inr (''\<newline># '' @ peerName @ ''\<newline>'' @ ''[Peer]\<newline>'' @
            ''PublicKey = '' @ pk @ ''\<newline>'' @
            ''AllowedIPs = '' @ addr @ net @
            (if js_has nodeObj ''DefaultRoute'' then default_route_tail else ''\<newline>'') @
            ep @ ka)))))))"

section \<open>The peer loop and the files of one node\<close>

definition split_path :: "string \<Rightarrow> string \<Rightarrow> string" where
  "split_path nodeName peerName = output_dir @ ''/'' @ nodeName @ '':'' @ peerName @ ''.conf''"

definition single_path :: "string \<Rightarrow> string" where
  "single_path nodeName = output_dir @ ''/'' @ nodeName @ ''.conf''"

text \<open>Lines 74--89: the loop over \<open>Object.entries(nodes)\<close>, with the accumulator \<open>peers\<close>
  and the files written so far.\<close>

fun peer_loop ::
  "string \<times> node_obj \<Rightarrow> string \<Rightarrow> string \<Rightarrow> file_write list \<Rightarrow> (string \<times> node_obj) list
   \<Rightarrow> (js_error \<times> file_write list) + (string \<times> file_write list)" where
  "peer_loop nd iface peers ws [] = Inr (peers, ws)"
| "peer_loop nd iface peers ws (pr # prs) =
     (case skip_peer nd pr of
        Inl e \<Rightarrow> Inl (e, ws)
      | Inr True \<Rightarrow> peer_loop nd iface peers ws prs
      | Inr False \<Rightarrow>
          (case peer_section nd pr of
             Inl e \<Rightarrow> Inl (e, ws)
           | Inr sec \<Rightarrow>
               peer_loop nd iface (peers @ sec)
                 (if js_has (snd nd) ''SplitFiles''
                  then ws @ [(split_path (fst nd) (fst pr), iface @ peers @ sec)] else ws)
                 prs))"

text \<open>Lines 62--91, the body of the loop over the nodes.\<close>

definition render_node ::
  "node_obj js_obj \<Rightarrow> file_write list \<Rightarrow> string \<times> node_obj \<Rightarrow> (js_error \<times> file_write list) + file_write list" where
  "render_node ns ws nd =
     (case iface_block (snd nd) of
        Inl e \<Rightarrow> Inl (e, ws)
      | Inr iface \<Rightarrow>
          (case peer_loop nd iface [] ws (js_entries ns) of
             Inl ew \<Rightarrow> Inl ew
           | Inr (peers, ws') \<Rightarrow>
               Inr (if js_has (snd nd) ''SplitFiles'' then ws'
                    else ws' @ [(single_path (fst nd), iface @ peers)])))"

text \<open>Line 61: the loop over \<open>Object.entries(nodes)\<close>.\<close>

fun render_all ::
  "node_obj js_obj \<Rightarrow> file_write list \<Rightarrow> (string \<times> node_obj) list \<Rightarrow> (js_error \<times> file_write list) + file_write list" where
  "render_all ns ws [] = Inr ws"
| "render_all ns ws (nd # nds) =
     (case render_node ns ws nd of
        Inl ew \<Rightarrow> Inl ew
      | Inr ws' \<Rightarrow> render_all ns ws' nds)"

section \<open>Specification of the output\<close>

text \<open>The text the renderer should produce for a valid registry: the interface block
  (header, then one \<open>key = value\<close> line per value of every key outside
  \<open>exclude_interface\<close>, in property order), one section per peer of
  \<open>Topology.peers_spec\<close>, and the files of one node, cumulative when split.\<close>

definition iface_header :: "node_obj \<Rightarrow> string" where
  "iface_header obj = ''[Interface]\<newline>'' @ (if js_has obj ''PrivateKey'' then [] else placeholder_line)"

definition value_lines :: "string \<times> jsval \<Rightarrow> string" where
  "value_lines p = (case snd p of Arr vs \<Rightarrow> concat (map (\<lambda>d. fst p @ '' = '' @ d @ ''\<newline>'') vs) | JTrue \<Rightarrow> [])"

definition iface_spec :: "node_obj \<Rightarrow> string" where
  "iface_spec obj =
     iface_header obj @ concat (map value_lines (filter (\<lambda>p. fst p \<notin> set exclude_interface) (js_entries obj)))"

definition first_value :: "node_obj \<Rightarrow> string \<Rightarrow> string" where
  "first_value obj k = hd (attr_values obj k)"

definition section_spec :: "string \<times> node_obj \<Rightarrow> string \<times> node_obj \<Rightarrow> string" where
  "section_spec nd pr =
     ''\<newline># '' @ fst pr @ ''\<newline>[Peer]\<newline>PublicKey = '' @ first_value (snd pr) ''PublicKey'' @
     ''\<newline>AllowedIPs = '' @ first_value (snd pr) ''Address'' @
     (if js_has (snd pr) ''Network'' then '', '' @ first_value (snd pr) ''Network'' else []) @
     (if js_has (snd nd) ''DefaultRoute'' then default_route_tail else ''\<newline>'') @
     (if js_has (snd pr) ''Endpoint'' then ''Endpoint = '' @ first_value (snd pr) ''Endpoint'' @ ''\<newline>'' else []) @
     (if js_has (snd nd) ''PersistentKeepalive''
      then ''PersistentKeepalive = '' @ first_value (snd nd) ''PersistentKeepalive'' @ ''\<newline>'' else [])"

fun cumulative_writes :: "string \<Rightarrow> string \<Rightarrow> (string \<times> string) list \<Rightarrow> file_write list" where
  "cumulative_writes n pre [] = []"
| "cumulative_writes n pre ((p, s) # rest) = (split_path n p, pre @ s) # cumulative_writes n (pre @ s) rest"

definition valid_registry :: "node_obj js_obj \<Rightarrow> bool" where
  "valid_registry ns \<longleftrightarrow> wf_registry ns \<and> list_all (\<lambda>p. valid_node (snd p)) ns"

definition node_files :: "node_obj js_obj \<Rightarrow> string \<times> node_obj \<Rightarrow> file_write list" where
  "node_files ns nd =
     (let secs = map (\<lambda>p. (fst p, section_spec nd p)) (peers_spec ns nd)
      in if js_has (snd nd) ''SplitFiles'' then cumulative_writes (fst nd) (iface_spec (snd nd)) secs
         else [(single_path (fst nd), iface_spec (snd nd) @ concat (map snd secs))])"

declare exclude_interface_def [model_defs] output_dir_def [model_defs]
  placeholder_line_def [model_defs] default_route_tail_def [model_defs] js_index0_def [model_defs]
  iface_values_def [model_defs] iface_block_def [model_defs] peer_section_def [model_defs]
  split_path_def [model_defs] single_path_def [model_defs] render_node_def [model_defs]
declare iface_header_def [spec_defs] value_lines_def [spec_defs] iface_spec_def [spec_defs]
  first_value_def [spec_defs] section_spec_def [spec_defs] valid_registry_def [spec_defs]
  node_files_def [spec_defs]


section \<open>Lemmas\<close>

lemma flag_keys_excluded: "k \<in> set flag_keys \<Longrightarrow> k \<in> set exclude_interface"
  by (auto simp: flag_keys_def exclude_interface_def)

lemma iface_entries_wf:
  "list_all wf_entry es \<Longrightarrow>
   iface_entries acc es = Inr (acc @ concat (map value_lines (filter (\<lambda>p. fst p \<notin> set exclude_interface) es)))"
proof (induction es arbitrary: acc)
  case Nil
  then show ?case by simp
next
  case (Cons p es)
  obtain k v where p: "p = (k, v)" by fastforce
  show ?case
  proof (cases "k \<in> set exclude_interface")
    case True
    with Cons p show ?thesis by simp
  next
    case False
    with Cons.prems p have "v \<noteq> JTrue"
      by (auto simp: wf_entry_def dest: flag_keys_excluded split: if_splits)
    then obtain vs where "v = Arr vs" by (cases v) auto
    with False Cons p show ?thesis
      by (simp add: iface_values_def value_lines_def)
  qed
qed

lemma iface_entries_filter:
  "iface_entries acc (filter (\<lambda>p. fst p \<notin> set exclude_interface) es) = iface_entries acc es"
proof (induction acc es rule: iface_entries.induct)
  case (1 acc)
  then show ?case by simp
next
  case (2 acc k v es)
  show ?case
  proof (cases "k \<in> set exclude_interface")
    case True
    with 2 show ?thesis by simp
  next
    case False
    with 2 show ?thesis by (cases "iface_values k v") simp_all
  qed
qed

lemma iface_block_wf: "wf_obj obj \<Longrightarrow> iface_block obj = Inr (iface_spec obj)"
proof -
  assume "wf_obj obj"
  then have "list_all wf_entry (js_entries obj)"
    by (simp add: wf_obj_def list_all_iff)
  then show ?thesis
    by (simp add: iface_block_def iface_spec_def iface_header_def iface_entries_wf)
qed

lemma js_index0_wf:
  "wf_obj obj \<Longrightarrow> js_has obj k \<Longrightarrow> k \<notin> set flag_keys \<Longrightarrow> js_index0 (js_get obj k) = Inr (first_value obj k)"
proof -
  assume wf: "wf_obj obj" and h: "js_has obj k" and nf: "k \<notin> set flag_keys"
  from h obtain v where v: "js_get obj k = Some v"
    by (auto simp: js_has_get)
  with wf nf obtain x xs where "v = Arr (x # xs)"
    using wf_obj_get [OF wf v] by (cases v; auto simp: wf_entry_def neq_Nil_conv)
  with v show ?thesis by (simp add: js_index0_def first_value_def attr_values_def)
qed

lemma must_have_keys: "valid_node obj \<Longrightarrow> js_has obj ''PublicKey'' \<and> js_has obj ''Address''"
  by (simp add: valid_node_def must_have_def)

lemma not_flag_keys:
  "''PublicKey'' \<notin> set flag_keys" "''Address'' \<notin> set flag_keys" "''Network'' \<notin> set flag_keys"
  "''Endpoint'' \<notin> set flag_keys" "''PersistentKeepalive'' \<notin> set flag_keys"
  by (simp_all add: flag_keys_def)

lemma peer_section_valid:
  assumes "wf_obj (snd nd)" and "valid_node (snd pr)"
  shows "peer_section nd pr = Inr (section_spec nd pr)"
proof -
  obtain a oa b ob where p: "nd = (a, oa)" "pr = (b, ob)" by fastforce
  have wb: "wf_obj ob" using assms(2) p by (simp add: valid_node_def)
  have wa: "wf_obj oa" using assms(1) p by simp
  show ?thesis
    using p must_have_keys [OF assms(2)]
    by (simp add: peer_section_def section_spec_def js_index0_wf [OF wb] js_index0_wf [OF wa]
        not_flag_keys)
qed

lemma peer_loop_valid:
  assumes "valid_node (snd nd)" and "list_all (\<lambda>p. valid_node (snd p)) es"
  shows "peer_loop nd iface peers ws es =
     Inr (peers @ concat (map (section_spec nd) (filter (peer_rule nd) es)),
          ws @ (if js_has (snd nd) ''SplitFiles''
                then cumulative_writes (fst nd) (iface @ peers)
                       (map (\<lambda>p. (fst p, section_spec nd p)) (filter (peer_rule nd) es))
                else []))"
  using assms(2)
proof (induction es arbitrary: peers ws)
  case Nil
  then show ?case by simp
next
  case (Cons pr es)
  have wa: "wf_obj (snd nd)" and vb: "valid_node (snd pr)" and wb: "wf_obj (snd pr)"
    using assms(1) Cons.prems by (auto simp: valid_node_def)
  note skip = skip_peer_refines [OF wa wb]
  show ?case
  proof (cases "peer_rule nd pr")
    case False
    with skip Cons show ?thesis by simp
  next
    case True
    with skip Cons peer_section_valid [OF wa vb] show ?thesis by simp
  qed
qed

lemma list_all_js_entries: "list_all P (js_entries ns) = list_all P ns"
  by (simp add: list_all_iff)

lemma render_node_valid:
  assumes "valid_registry ns" and "valid_node (snd nd)"
  shows "render_node ns ws nd = Inr (ws @ node_files ns nd)"
proof -
  have es: "list_all (\<lambda>p. valid_node (snd p)) (js_entries ns)"
    using assms(1) by (simp add: valid_registry_def list_all_js_entries)
  have "wf_obj (snd nd)" using assms(2) by (simp add: valid_node_def)
  then show ?thesis
    by (simp add: render_node_def iface_block_wf peer_loop_valid [OF assms(2) es] node_files_def
        peers_spec_def Let_def comp_def)
qed

lemma render_all_valid:
  "valid_registry ns \<Longrightarrow> list_all (\<lambda>p. valid_node (snd p)) nds \<Longrightarrow>
   render_all ns ws nds = Inr (ws @ concat (map (node_files ns) nds))"
  by (induction nds arbitrary: ws) (simp_all add: render_node_valid)

lemma length_cumulative_writes [simp]: "length (cumulative_writes n pre ps) = length ps"
  by (induction n pre ps rule: cumulative_writes.induct) simp_all

lemma nth_cumulative_writes:
  "k < length ps \<Longrightarrow>
   cumulative_writes n pre ps ! k = (split_path n (fst (ps ! k)), pre @ concat (take (Suc k) (map snd ps)))"
proof (induction n pre ps arbitrary: k rule: cumulative_writes.induct)
  case (1 n pre)
  then show ?case by simp
next
  case (2 n pre p s rest)
  then show ?case by (cases k) simp_all
qed

section \<open>Properties\<close>

text \<open>C8. Split files are cumulative: for a node with \<open>SplitFiles\<close> in a valid registry,
  the renderer writes one file per peer of the inclusion rule, in registry order; the
  \<open>k\<close>-th file is named after the node and the \<open>k\<close>-th peer and holds the interface
  block followed by the sections of peers \<open>0..k\<close>, not only the \<open>k\<close>-th.\<close>

theorem split_files_cumulative:
  assumes "valid_registry ns" and "valid_node obj" and "js_has obj ''SplitFiles''"
    and "render_node ns [] (n, obj) = Inr ws"
  shows "length ws = length (peers_spec ns (n, obj)) \<and>
    (\<forall>k < length ws. ws ! k =
       (split_path n (fst (peers_spec ns (n, obj) ! k)),
        iface_spec obj @ concat (take (Suc k) (map (section_spec (n, obj)) (peers_spec ns (n, obj))))))"
proof -
  let ?ps = "peers_spec ns (n, obj)"
  have "render_node ns [] (n, obj) =
    Inr (cumulative_writes n (iface_spec obj) (map (\<lambda>p. (fst p, section_spec (n, obj) p)) ?ps))"
    using assms(1-3) render_node_valid [of ns "(n, obj)" "[]"] by (simp add: node_files_def)
  with assms(4) have "ws = cumulative_writes n (iface_spec obj) (map (\<lambda>p. (fst p, section_spec (n, obj) p)) ?ps)"
    by simp
  then show ?thesis
    by (simp add: nth_cumulative_writes take_map comp_def)
qed

text \<open>C9. Without \<open>SplitFiles\<close> the renderer writes exactly one file for the node, named
  after it, holding the interface block followed by the sections of all peers of the
  inclusion rule in registry order.\<close>

theorem single_file_output:
  assumes "valid_registry ns" and "valid_node obj" and "\<not> js_has obj ''SplitFiles''"
  shows "render_node ns [] (n, obj) =
     Inr [(single_path n, iface_spec obj @ concat (map (section_spec (n, obj)) (peers_spec ns (n, obj))))]"
  using assms render_node_valid [of ns "(n, obj)" "[]"]
  by (simp add: node_files_def comp_def)

text \<open>C12. A node with \<open>SplitFiles\<close> that has no peer under the inclusion rule gets no
  configuration file at all, not even its interface block.\<close>

theorem split_without_peers_writes_nothing:
  assumes "valid_registry ns" and "valid_node obj" and "js_has obj ''SplitFiles''"
    and "peers_spec ns (n, obj) = []"
  shows "render_node ns [] (n, obj) = Inr []"
  using assms render_node_valid [of ns "(n, obj)" "[]"] by (simp add: node_files_def)


text \<open>C18. A peer section reads only the \<open>PublicKey\<close>, \<open>Address\<close>, \<open>Network\<close> and
  \<open>Endpoint\<close> of the peer and the \<open>DefaultRoute\<close> and \<open>PersistentKeepalive\<close> of the node
  being configured (lines 81--86): in particular the keep-alive interval comes from the
  node, never from the peer.\<close>

theorem peer_section_frame:
  assumes "\<forall>k \<in> set [''PublicKey'', ''Address'', ''Network'', ''Endpoint'']. js_get ob k = js_get ob' k"
    and "\<forall>k \<in> set [''DefaultRoute'', ''PersistentKeepalive'']. js_get oa k = js_get oa' k"
  shows "peer_section (a, oa) (b, ob) = peer_section (a, oa') (b, ob')"
proof -
  have "js_has ob k = js_has ob' k" if "k \<in> set [''Network'', ''Endpoint'']" for k
  proof -
    have "js_get ob k = js_get ob' k" using assms(1) that by auto
    then show ?thesis by (simp add: js_has_get)
  qed
  moreover have "js_has oa k = js_has oa' k" if "k \<in> set [''DefaultRoute'', ''PersistentKeepalive'']" for k
  proof -
    have "js_get oa k = js_get oa' k" using assms(2) that by auto
    then show ?thesis by (simp add: js_has_get)
  qed
  ultimately show ?thesis using assms by (simp add: peer_section_def)
qed

text \<open>C20. The excluded keys of line 29 never reach the interface block: the block of a
  node object is the block of the object without them, whatever the values hold.\<close>

theorem iface_block_ignores_excluded:
  "iface_block (filter (\<lambda>p. fst p \<notin> set exclude_interface) obj) = iface_block obj"
proof -
  have "''PrivateKey'' \<notin> set exclude_interface" by (simp add: exclude_interface_def)
  then have pk: "js_has (filter (\<lambda>p. fst p \<notin> set exclude_interface) obj) ''PrivateKey'' = js_has obj ''PrivateKey''"
    by (auto simp: image_iff) (metis fst_conv)
  have "js_entries (filter (\<lambda>p. fst p \<notin> set exclude_interface) obj) =
        filter (\<lambda>p. fst p \<notin> set exclude_interface) (js_entries obj)"
    using js_entries_filter [of "\<lambda>k. k \<notin> set exclude_interface" obj] by simp
  then show ?thesis by (simp only: iface_block_def pk iface_entries_filter)
qed

end
