(* ===== verification/Output.thy ===== *)
theory Output
  imports Render
begin

text \<open>
  File-system I/O of \<open>src/genConf.js\<close> on the output side: \<open>fs.writeFileSync\<close> (lines 88
  and 91) replaces the content of the file at a path, so the directory \<open>conf_output\<close> is a
  store from paths to contents and a run's writes are applied to it in order.  The lemmas
  give the store a closed form, show when no write is overwritten (distinct paths), and
  characterise the paths a node's files use: \<open>node:peer.conf\<close> when split, \<open>node.conf\<close>
  otherwise, which no two nodes share when node names contain no \<open>:\<close>.  The input side
  (\<open>readdirSync\<close>, \<open>readFileSync\<close>) is the argument of \<open>Program.gen_conf\<close>.
\<close>

section \<open>The output directory\<close>

text \<open>\<open>fs.writeFileSync(path, data)\<close>: the file at \<open>path\<close> now holds \<open>data\<close>.\<close>

definition write_file :: "file_write \<Rightarrow> (string \<rightharpoonup> string) \<Rightarrow> (string \<rightharpoonup> string)" where
  "write_file w d = d(fst w \<mapsto> snd w)"

text \<open>The directory a run leaves behind: its writes applied in order to an empty
  directory, so a later write to a path replaces an earlier one.\<close>

definition output_fs :: "file_write list \<Rightarrow> string \<rightharpoonup> string" where
  "output_fs ws = fold write_file ws Map.empty"

declare write_file_def [model_defs] output_fs_def [model_defs]

section \<open>Lemmas\<close>

lemma fold_write_file: "fold write_file ws d = d ++ map_of (rev ws)"
  by (induction ws arbitrary: d) (auto simp: write_file_def map_add_def fun_eq_iff split: option.splits)

lemma map_of_rev_distinct: "distinct (map fst ws) \<Longrightarrow> map_of (rev ws) = map_of ws"
  by (simp add: map_of_inject_set rev_map [symmetric])

lemma output_fs_distinct: "distinct (map fst ws) \<Longrightarrow> output_fs ws = map_of ws"
  by (simp add: output_fs_def fold_write_file map_of_rev_distinct)

lemma sep_append_inj:
  "c \<notin> set n \<Longrightarrow> c \<notin> set n' \<Longrightarrow> n @ c # r = n' @ c # r' \<Longrightarrow> n = n' \<and> r = r'"
proof (induction n arbitrary: n')
  case Nil
  then show ?case by (cases n') auto
next
  case (Cons x n)
  then show ?case by (cases n') auto
qed

lemma split_path_inj:
  assumes "CHR '':'' \<notin> set n" and "CHR '':'' \<notin> set n'" and "split_path n p = split_path n' p'"
  shows "n = n' \<and> p = p'"
proof -
  from assms(3) have "(output_dir @ ''/'') @ (n @ CHR '':'' # p) @ ''.conf'' = (output_dir @ ''/'') @ (n' @ CHR '':'' # p') @ ''.conf''"
    unfolding split_path_def by simp
  then have "n @ CHR '':'' # p = n' @ CHR '':'' # p'"
    by (simp only: same_append_eq append_same_eq)
  with sep_append_inj [OF assms(1,2)] have "n = n' \<and> p = p'" by blast
  then show ?thesis .
qed


lemma split_path_inj_peer: "inj (split_path n)"
  by (auto simp: inj_def split_path_def)

lemma single_path_inj: "single_path n = single_path n' \<Longrightarrow> n = n'"
  by (simp add: single_path_def)

lemma split_path_not_single: "CHR '':'' \<notin> set m \<Longrightarrow> split_path n p \<noteq> single_path m"
proof
  assume m: "CHR '':'' \<notin> set m" and "split_path n p = single_path m"
  then have "(n @ CHR '':'' # p) @ ''.conf'' = m @ ''.conf''"
    by (simp add: split_path_def single_path_def)
  then have "m = n @ CHR '':'' # p" by simp
  with m show False by simp
qed

lemma map_fst_cumulative_writes:
  "map fst (cumulative_writes n pre ps) = map (\<lambda>p. split_path n (fst p)) ps"
  by (induction n pre ps rule: cumulative_writes.induct) auto

lemma node_files_paths:
  "map fst (node_files ns nd) =
     (if js_has (snd nd) ''SplitFiles'' then map (split_path (fst nd)) (map fst (peers_spec ns nd))
      else [single_path (fst nd)])"
  by (simp add: node_files_def Let_def map_fst_cumulative_writes comp_def)

lemma node_files_path_shape:
  "q \<in> set (map fst (node_files ns nd)) \<Longrightarrow> q = single_path (fst nd) \<or> (\<exists>p. q = split_path (fst nd) p)"
  by (auto simp: node_files_paths split: if_splits)

lemma node_paths_disjoint:
  assumes "CHR '':'' \<notin> set n" and "CHR '':'' \<notin> set m" and "n \<noteq> m"
    and "q = single_path n \<or> (\<exists>p. q = split_path n p)" and "q = single_path m \<or> (\<exists>p. q = split_path m p)"
  shows False
  using assms split_path_inj [OF assms(1,2)] single_path_inj split_path_not_single [OF assms(1)]
    split_path_not_single [OF assms(2)]
  by metis

lemma distinct_split_paths: "distinct (map (split_path n) xs) \<longleftrightarrow> distinct xs"
  using inj_on_subset [OF split_path_inj_peer [of n] subset_UNIV] by (simp add: distinct_map)

lemma node_files_distinct:
  assumes "distinct (map fst ns)"
  shows "distinct (map fst (node_files ns nd))"
proof (cases "js_has (snd nd) ''SplitFiles''")
  case True
  have "distinct (map fst (peers_spec ns nd))"
    using assms by (simp add: peers_spec_def distinct_map_filter distinct_js_entries)
  moreover have "map fst (node_files ns nd) = map (split_path (fst nd)) (map fst (peers_spec ns nd))"
    using True by (simp only: node_files_paths if_True)
  ultimately show ?thesis by (simp only: distinct_split_paths)
next
  case False
  then show ?thesis by (simp add: node_files_paths)
qed

lemma spec_output_distinct:
  assumes "distinct (map fst ns)" and "\<forall>nd \<in> set ns. CHR '':'' \<notin> set (fst nd)"
  shows "distinct (map fst (concat (map (node_files ns) (js_entries ns))))"
proof -
  have "map fst (concat (map (node_files ns) (js_entries ns))) =
      concat (map (\<lambda>nd. map fst (node_files ns nd)) (js_entries ns))"
    by (simp add: map_concat comp_def)
  moreover have "distinct (concat (map (\<lambda>nd. map fst (node_files ns nd)) (js_entries ns)))"
  proof (rule distinct_concat_map_key [where key = fst])
    show "distinct (map fst (js_entries ns))" using assms(1) by (rule distinct_js_entries)
    show "\<forall>x \<in> set (js_entries ns). distinct (map fst (node_files ns x))"
      using assms(1) by (simp add: node_files_distinct)
    show "\<forall>x \<in> set (js_entries ns). \<forall>y \<in> set (js_entries ns). fst x \<noteq> fst y \<longrightarrow>
        set (map fst (node_files ns x)) \<inter> set (map fst (node_files ns y)) = {}"
    proof (intro ballI impI equals0I)
      fix x y q
      assume x: "x \<in> set (js_entries ns)" and y: "y \<in> set (js_entries ns)" and xy: "fst x \<noteq> fst y"
        and q: "q \<in> set (map fst (node_files ns x)) \<inter> set (map fst (node_files ns y))"
      from x y assms(2) have "CHR '':'' \<notin> set (fst x)" "CHR '':'' \<notin> set (fst y)" by auto
      moreover from q have "q \<in> set (map fst (node_files ns x))" by blast
      then have "q = single_path (fst x) \<or> (\<exists>p. q = split_path (fst x) p)"
        by (rule node_files_path_shape)
      moreover from q have "q \<in> set (map fst (node_files ns y))" by blast
      then have "q = single_path (fst y) \<or> (\<exists>p. q = split_path (fst y) p)"
        by (rule node_files_path_shape)
      ultimately show False using xy node_paths_disjoint [of "fst x" "fst y" q] by blast
    qed
  qed
  ultimately show ?thesis by simp
qed

end
