(* ===== verification/Program.thy ===== *)
theory Program
  imports Output
begin

text \<open>
  The whole script \<open>src/genConf.js\<close>: load and validate every \<open>.wg\<close> file
  (\<open>Registry.load_all\<close>, lines 36--58), exit with status -1 when \<open>err\<close> is set (line 59),
  and otherwise render every node in \<open>Object.entries(nodes)\<close> order
  (\<open>Render.render_all\<close>, lines 61--92).  An uncaught exception ends the process with the
  warnings printed and the files written until then.
\<close>

section \<open>The run\<close>

datatype run_result =
    Crashed "diag list" "file_write list" \<comment> \<open>uncaught exception: warnings, files written\<close>
  | Failed "diag list" \<comment> \<open>\<open>process.exit(-1)\<close> at line 59\<close>
  | Completed "file_write list" \<comment> \<open>normal end: the files written, in order\<close>

definition gen_conf :: "(string \<times> string) list \<Rightarrow> run_result" where
  "gen_conf fs =
     (case load_all init_state fs of
        Inl (e, g) \<Rightarrow> Crashed (warnings g) []
      | Inr g \<Rightarrow>
          (if err g then Failed (warnings g)
           else
             (case render_all (nodes g) [] (js_entries (nodes g)) of
                Inl (e, ws) \<Rightarrow> Crashed (warnings g) ws
              | Inr ws \<Rightarrow> Completed ws)))"

fun files_written :: "run_result \<Rightarrow> file_write list" where
  "files_written (Crashed ds ws) = ws"
| "files_written (Failed ds) = []"
| "files_written (Completed ws) = ws"

fun is_crashed :: "run_result \<Rightarrow> bool" where
  "is_crashed (Crashed ds ws) = True"
| "is_crashed _ = False"

section \<open>Specification of the run\<close>

definition spec_registry :: "(string \<times> string) list \<Rightarrow> node_obj js_obj" where
  "spec_registry fs = foldl add_node [] (wg_files fs)"

definition spec_output :: "(string \<times> string) list \<Rightarrow> file_write list" where
  "spec_output fs = concat (map (node_files (spec_registry fs)) (js_entries (spec_registry fs)))"

declare gen_conf_def [model_defs]
declare spec_registry_def [spec_defs] spec_output_def [spec_defs]

section \<open>Lemmas\<close>

lemma set_foldl_add_node:
  "set (foldl add_node ns ps) \<subseteq> set ns \<union> (\<lambda>p. (node_name (fst p), file_obj (snd p))) ` set ps"
proof (induction ps arbitrary: ns)
  case Nil
  then show ?case by simp
next
  case (Cons p ps)
  have "set (add_node ns p) \<subseteq> insert (node_name (fst p), file_obj (snd p)) (set ns)"
    by (simp add: add_node_def set_js_set_sub)
  with Cons.IH [of "add_node ns p"] show ?case by auto
qed

lemma spec_registry_valid:
  assumes "\<not> any_crash fs" and "spec_diags fs = []"
  shows "valid_registry (spec_registry fs)"
proof -
  have wf: "wf_registry (spec_registry fs)"
    unfolding spec_registry_def by (rule wf_registry_foldl) (simp add: wf_registry_def)
  have "\<forall>p \<in> set (wg_files fs). valid_node (file_obj (snd p))"
    using assms by (auto simp: any_crash_def spec_diags_def list_ex_iff intro!: file_obj_valid)
  then have "\<forall>q \<in> set (spec_registry fs). valid_node (snd q)"
    using set_foldl_add_node [of "[]" "wg_files fs"] unfolding spec_registry_def by fastforce
  with wf show ?thesis by (simp add: valid_registry_def list_all_iff)
qed

lemma gen_conf_no_crash:
  "\<not> any_crash fs \<Longrightarrow>
   gen_conf fs = (if spec_diags fs = [] then Completed (spec_output fs) else Failed (spec_diags fs))"
  using spec_registry_valid [of fs]
  by (simp add: gen_conf_def load_all_ok init_state_def render_all_valid spec_output_def
      spec_registry_def valid_registry_def list_all_js_entries)

lemma gen_conf_crash: "any_crash fs \<Longrightarrow> \<exists>ds. gen_conf fs = Crashed ds []"
  using load_all_crash_iff [of init_state fs]
  by (auto simp: gen_conf_def split: sum.splits)

lemma load_all_wg_files: "load_all g fs = load_all g (wg_files fs)"
proof (induction fs arbitrary: g)
  case Nil
  then show ?case by (simp add: wg_files_def)
next
  case (Cons p fs)
  obtain f c where p: "p = (f, c)" by fastforce
  show ?case
    using Cons p by (cases "is_wg f") (simp_all add: wg_files_def load_file_skip split: sum.split)
qed

section \<open>Properties\<close>

text \<open>C2. All-or-nothing validation: if any \<open>.wg\<close> file has an unrecognised key or
  lacks a required key, the run writes no file at all.\<close>

theorem diagnostics_suppress_output:
  assumes "spec_diags fs \<noteq> []"
  shows "files_written (gen_conf fs) = []"
proof (cases "any_crash fs")
  case True
  then show ?thesis by (auto dest: gen_conf_crash)
next
  case False
  with assms show ?thesis by (simp add: gen_conf_no_crash)
qed

theorem diagnostics_suppress_output_witness:
  "spec_diags [(''F.wg'', ''Foo = bar\<newline>Address = 10.0.0.6/32\<newline>PublicKey = pkF'')] \<noteq> [] \<and>
   files_written (gen_conf [(''F.wg'', ''Foo = bar\<newline>Address = 10.0.0.6/32\<newline>PublicKey = pkF'')]) = []"
proof -
  have h: "spec_diags [(''F.wg'', ''Foo = bar\<newline>Address = 10.0.0.6/32\<newline>PublicKey = pkF'')] \<noteq> []"
    by (simp add: spec_defs js_eval model_defs image_iff)
  show ?thesis using h diagnostics_suppress_output [OF h] by simp
qed

text \<open>C3. Complete diagnostics: when no line throws, a run with problems exits with the
  warnings of every file in directory order, each file's unrecognised keys line by line
  followed by its missing required keys, not only the first problem.\<close>

theorem diagnostics_complete:
  assumes "\<not> any_crash fs" and "spec_diags fs \<noteq> []"
  shows "gen_conf fs = Failed (spec_diags fs)"
  using assms by (simp add: gen_conf_no_crash)

theorem diagnostics_complete_witness:
  "\<not> any_crash [(''F.wg'', ''Foo = bar\<newline>PublicKey = pkF''), (''G.wg'', ''Address = 10.0.0.7/32'')] \<and>
   spec_diags [(''F.wg'', ''Foo = bar\<newline>PublicKey = pkF''), (''G.wg'', ''Address = 10.0.0.7/32'')] =
     [Unfamiliar ''Foo'' ''F.wg'', Missing ''F.wg'' ''Address'', Missing ''G.wg'' ''PublicKey''] \<and>
   gen_conf [(''F.wg'', ''Foo = bar\<newline>PublicKey = pkF''), (''G.wg'', ''Address = 10.0.0.7/32'')] =
     Failed [Unfamiliar ''Foo'' ''F.wg'', Missing ''F.wg'' ''Address'', Missing ''G.wg'' ''PublicKey'']"
proof -
  let ?fs = "[(''F.wg'', ''Foo = bar\<newline>PublicKey = pkF''), (''G.wg'', ''Address = 10.0.0.7/32'')]"
  have c: "\<not> any_crash ?fs" by (simp add: spec_defs js_eval model_defs image_iff)
  have d: "spec_diags ?fs =
     [Unfamiliar ''Foo'' ''F.wg'', Missing ''F.wg'' ''Address'', Missing ''G.wg'' ''PublicKey'']"
    by (simp add: spec_defs js_eval model_defs image_iff)
  show ?thesis using c d diagnostics_complete [OF c] by simp
qed

text \<open>C7. Refinement of the whole script: a run whose files are all valid completes and
  writes exactly the files of the specification, node by node in registry order, each
  with the peers of the inclusion rule; in particular rendering never throws once
  validation has passed.\<close>

theorem gen_conf_refines_spec:
  assumes "\<not> any_crash fs" and "spec_diags fs = []"
  shows "gen_conf fs = Completed (spec_output fs)"
  using assms by (simp add: gen_conf_no_crash)

theorem gen_conf_refines_spec_witness:
  "\<not> any_crash [(''A.wg'', ''Address = 10.0.0.1/32\<newline>PublicKey = pkA\<newline>Endpoint = a.example.com:51820''),
                  (''B.wg'', ''Address = 10.0.0.2/32\<newline>PublicKey = pkB'')] \<and>
   spec_diags [(''A.wg'', ''Address = 10.0.0.1/32\<newline>PublicKey = pkA\<newline>Endpoint = a.example.com:51820''),
               (''B.wg'', ''Address = 10.0.0.2/32\<newline>PublicKey = pkB'')] = [] \<and>
   gen_conf [(''A.wg'', ''Address = 10.0.0.1/32\<newline>PublicKey = pkA\<newline>Endpoint = a.example.com:51820''),
             (''B.wg'', ''Address = 10.0.0.2/32\<newline>PublicKey = pkB'')] =
   Completed (spec_output [(''A.wg'', ''Address = 10.0.0.1/32\<newline>PublicKey = pkA\<newline>Endpoint = a.example.com:51820''),
             (''B.wg'', ''Address = 10.0.0.2/32\<newline>PublicKey = pkB'')])"
proof -
  let ?fs = "[(''A.wg'', ''Address = 10.0.0.1/32\<newline>PublicKey = pkA\<newline>Endpoint = a.example.com:51820''),
              (''B.wg'', ''Address = 10.0.0.2/32\<newline>PublicKey = pkB'')]"
  have c: "\<not> any_crash ?fs" by (simp add: spec_defs js_eval model_defs image_iff)
  have d: "spec_diags ?fs = []" by (simp add: spec_defs js_eval model_defs image_iff)
  show ?thesis using c d gen_conf_refines_spec [OF c d] by simp
qed

text \<open>C10. The script throws an uncaught exception exactly when some \<open>.wg\<close> file has a
  \<open>key = value\<close> line whose key names a property inherited from \<open>Object.prototype\<close>
  (\<open>constructor\<close>, \<open>toString\<close>, \<open>__proto__\<close>, ...); rendering itself never
  throws.\<close>

theorem crash_iff_proto_key:
  "is_crashed (gen_conf fs) \<longleftrightarrow> any_crash fs"
proof (cases "any_crash fs")
  case True
  then show ?thesis by (auto dest: gen_conf_crash)
next
  case False
  then show ?thesis by (simp add: gen_conf_no_crash)
qed

text \<open>C24. The final directory of a clean run: when no file throws, no diagnostic is
  issued and no node name contains \<open>:\<close>, the run writes every path once, so the
  directory \<open>conf_output\<close> it leaves holds exactly the specified files and no write is
  lost to a later one.  The hypothesis on \<open>:\<close> is needed: a node \<open>a:b\<close> and a node
  \<open>a\<close> with \<open>SplitFiles\<close> and peer \<open>b\<close> both write \<open>conf_output/a:b.conf\<close>.\<close>

theorem final_directory:
  assumes "\<not> any_crash fs" and "spec_diags fs = []"
    and "\<forall>p \<in> set (wg_files fs). CHR '':'' \<notin> set (node_name (fst p))"
  shows "distinct (map fst (files_written (gen_conf fs))) \<and>
     output_fs (files_written (gen_conf fs)) = map_of (spec_output fs)"
proof -
  let ?R = "spec_registry fs"
  have g: "gen_conf fs = Completed (spec_output fs)" using gen_conf_no_crash [OF assms(1)] assms(2) by simp
  have "valid_registry ?R" using assms(1,2) by (rule spec_registry_valid)
  then have d: "distinct (map fst ?R)" by (simp add: valid_registry_def wf_registry_def)
  have "\<forall>nd \<in> set ?R. CHR '':'' \<notin> set (fst nd)"
    using set_foldl_add_node [of "[]" "wg_files fs"] assms(3) unfolding spec_registry_def by fastforce
  with d have "distinct (map fst (spec_output fs))"
    unfolding spec_output_def by (rule spec_output_distinct)
  with g show ?thesis by (simp add: output_fs_distinct)
qed


theorem final_directory_witness:
  "\<not> any_crash [(''F.wg'', ''Address = 10.0.0.6/32\<newline>PublicKey = pkF\<newline>SplitFiles = true\<newline>Endpoint = f:1''), (''G.wg'', ''Address = 10.0.0.7/32\<newline>PublicKey = pkG'')] \<and>
   spec_diags [(''F.wg'', ''Address = 10.0.0.6/32\<newline>PublicKey = pkF\<newline>SplitFiles = true\<newline>Endpoint = f:1''), (''G.wg'', ''Address = 10.0.0.7/32\<newline>PublicKey = pkG'')] = [] \<and>
   distinct (map fst (files_written (gen_conf [(''F.wg'', ''Address = 10.0.0.6/32\<newline>PublicKey = pkF\<newline>SplitFiles = true\<newline>Endpoint = f:1''), (''G.wg'', ''Address = 10.0.0.7/32\<newline>PublicKey = pkG'')]))) \<and>
   output_fs (files_written (gen_conf [(''F.wg'', ''Address = 10.0.0.6/32\<newline>PublicKey = pkF\<newline>SplitFiles = true\<newline>Endpoint = f:1''), (''G.wg'', ''Address = 10.0.0.7/32\<newline>PublicKey = pkG'')])) = map_of (spec_output [(''F.wg'', ''Address = 10.0.0.6/32\<newline>PublicKey = pkF\<newline>SplitFiles = true\<newline>Endpoint = f:1''), (''G.wg'', ''Address = 10.0.0.7/32\<newline>PublicKey = pkG'')])"
proof -
  let ?fs = "[(''F.wg'', ''Address = 10.0.0.6/32\<newline>PublicKey = pkF\<newline>SplitFiles = true\<newline>Endpoint = f:1''), (''G.wg'', ''Address = 10.0.0.7/32\<newline>PublicKey = pkG'')]"
  have c: "\<not> any_crash ?fs" by (simp add: spec_defs js_eval model_defs image_iff)
  have d: "spec_diags ?fs = []" by (simp add: spec_defs js_eval model_defs image_iff)
  have n: "\<forall>p \<in> set (wg_files ?fs). CHR '':'' \<notin> set (node_name (fst p))"
    by (simp add: spec_defs js_eval model_defs)
  show ?thesis using c d final_directory [OF c d n] by simp
qed

text \<open>C25. Directory entries that do not end in \<open>.wg\<close> never influence the run: its
  result is the result on the \<open>.wg\<close> entries alone (line 37).\<close>

theorem gen_conf_ignores_other_entries: "gen_conf fs = gen_conf (wg_files fs)"
  by (simp add: gen_conf_def load_all_wg_files [of init_state fs])

end
