(* ===== verification/Run.thy ===== *)
theory Run
  imports Program
begin

text \<open>
  The script of \<open>src/genConf.js\<close> as a transition system.  A configuration is the
  point the script has reached: walking the directory with the global state and the
  entries left (lines 36--58), rendering with the nodes left and the files written so far
  (lines 61--92), or halted with a \<open>run_result\<close>.  One step handles one directory entry
  (\<open>Registry.load_file\<close>), takes the exit decision of line 59, renders one node
  (\<open>Render.render_node\<close>) or ends the loop; an exception halts the run.  The theory
  proves, by rule induction over the reachable configurations, the invariants of the two
  phases: while loading, the registry is well formed and the error flag is set exactly
  when a warning was printed; rendering starts only from a clean, well-formed registry.
\<close>

section \<open>Configurations and steps\<close>

datatype config =
    Loading gstate "(string \<times> string) list"
  | Rendering gstate "(string \<times> node_obj) list" "file_write list"
  | Halted run_result

inductive run_step :: "config \<Rightarrow> config \<Rightarrow> bool" where
  load: "load_file g f = Inr g' \<Longrightarrow> run_step (Loading g (f # fs)) (Loading g' fs)"
| load_throw: "load_file g f = Inl (e, g') \<Longrightarrow>
     run_step (Loading g (f # fs)) (Halted (Crashed (warnings g') []))"
| exit: "err g \<Longrightarrow> run_step (Loading g []) (Halted (Failed (warnings g)))"
| render_start: "\<not> err g \<Longrightarrow> run_step (Loading g []) (Rendering g (js_entries (nodes g)) [])"
| render: "render_node (nodes g) ws nd = Inr ws' \<Longrightarrow>
     run_step (Rendering g (nd # nds) ws) (Rendering g nds ws')"
| render_throw: "render_node (nodes g) ws nd = Inl (e, ws') \<Longrightarrow>
     run_step (Rendering g (nd # nds) ws) (Halted (Crashed (warnings g) ws'))"
| render_end: "run_step (Rendering g [] ws) (Halted (Completed ws))"

code_pred run_step .

text \<open>The states a run reaches from a directory listing.\<close>

inductive reachable :: "(string \<times> string) list \<Rightarrow> config \<Rightarrow> bool" for fs where
  start: "reachable fs (Loading init_state fs)"
| step: "reachable fs c \<Longrightarrow> run_step c c' \<Longrightarrow> reachable fs c'"

text \<open>The invariant of the reachable configurations.\<close>

fun run_inv :: "config \<Rightarrow> bool" where
  "run_inv (Loading g fs) \<longleftrightarrow> wf_registry (nodes g) \<and> (err g \<longleftrightarrow> warnings g \<noteq> [])"
| "run_inv (Rendering g nds ws) \<longleftrightarrow> wf_registry (nodes g) \<and> warnings g = []"
| "run_inv (Halted r) \<longleftrightarrow> True"

section \<open>Example directories\<close>

text \<open>A directory with one valid node, and the state after loading a file with an unknown
  key and no required key.\<close>

definition example_one_node :: "(string \<times> string) list" where
  "example_one_node = [(''A.wg'', ''Address = 10.0.0.1/32\<newline>PublicKey = pkA'')]"

definition example_one_node_state :: gstate where
  "example_one_node_state =
     \<lparr>nodes = [(''A'', [(''Address'', Arr [''10.0.0.1/32'']), (''PublicKey'', Arr [''pkA''])])],
      err = False, warnings = []\<rparr>"

definition example_unknown_key_state :: gstate where
  "example_unknown_key_state =
     \<lparr>nodes = [(''F'', [(''Foo'', Arr [''bar''])])], err = True,
      warnings = [Unfamiliar ''Foo'' ''F.wg'', Missing ''F.wg'' ''Address'', Missing ''F.wg'' ''PublicKey'']\<rparr>"

section \<open>Lemmas\<close>

lemma load_file_Inr:
  assumes "load_file g (f, c) = Inr g'"
  shows "g' = g \<or> (\<not> file_crashes c \<and> g' = g\<lparr>nodes := add_node (nodes g) (f, c),
           warnings := warnings g @ file_diags f c, err := (err g \<or> file_diags f c \<noteq> [])\<rparr>)"
proof (cases "is_wg f")
  case True
  with assms load_file_crash [of f c g] have "\<not> file_crashes c" by auto
  with True assms show ?thesis by (simp add: load_file_ok)
next
  case False
  with assms show ?thesis by (simp add: load_file_skip)
qed

lemma run_step_inv: "run_step c c' \<Longrightarrow> run_inv c \<Longrightarrow> run_inv c'"
proof (induction rule: run_step.induct)
  case (load g f g' fs)
  obtain fn ct where f: "f = (fn, ct)" by fastforce
  with load show ?case using load_file_Inr [of g fn ct g'] by (auto intro: wf_registry_add_node)
qed auto

lemma reachable_inv: "reachable fs c \<Longrightarrow> run_inv c"
proof (induction rule: reachable.induct)
  case start
  show ?case by (simp add: init_state_def wf_registry_def)
next
  case (step c c')
  then show ?case by (blast intro: run_step_inv)
qed

section \<open>Properties\<close>

text \<open>C21. Invariant of the loading phase: in every state the run reaches while it walks
  the directory, the registry is well formed and \<open>err\<close> is set exactly when a warning has
  been printed.\<close>

theorem reachable_loading_inv:
  assumes "reachable fs (Loading g rest)"
  shows "wf_registry (nodes g) \<and> (err g \<longleftrightarrow> warnings g \<noteq> [])"
  using reachable_inv [OF assms] by simp

text \<open>C22. Rendering starts only after a clean validation: in every reachable state of the
  rendering phase no warning has been printed and the registry being rendered is well
  formed.\<close>

theorem reachable_rendering_clean:
  assumes "reachable fs (Rendering g nds ws)"
  shows "warnings g = [] \<and> wf_registry (nodes g)"
  using reachable_inv [OF assms] by simp

theorem reachable_loading_inv_witness:
  "reachable [(''F.wg'', ''Foo = bar'')] (Loading example_unknown_key_state []) \<and>
   wf_registry (nodes example_unknown_key_state) \<and>
   (err example_unknown_key_state \<longleftrightarrow> warnings example_unknown_key_state \<noteq> [])"
proof -
  have l: "load_file init_state (''F.wg'', ''Foo = bar'') = Inr example_unknown_key_state"
    by (simp add: js_eval model_defs Let_def example_unknown_key_state_def)
  have h: "reachable [(''F.wg'', ''Foo = bar'')] (Loading example_unknown_key_state [])"
    using reachable.step [OF reachable.start run_step.load [OF l]] .
  show ?thesis using h reachable_loading_inv [OF h] by simp
qed

theorem reachable_rendering_clean_witness:
  "reachable example_one_node (Rendering example_one_node_state (js_entries (nodes example_one_node_state)) []) \<and>
   warnings example_one_node_state = [] \<and> wf_registry (nodes example_one_node_state)"
proof -
  have l: "load_file init_state (hd example_one_node) = Inr example_one_node_state"
    by (simp add: js_eval model_defs Let_def example_one_node_def example_one_node_state_def)
  have e: "\<not> err example_one_node_state" by (simp add: example_one_node_state_def)
  have h: "reachable example_one_node
      (Rendering example_one_node_state (js_entries (nodes example_one_node_state)) [])"
    using reachable.step [OF reachable.step [OF reachable.start run_step.load [OF l]] run_step.render_start [OF e]]
    by (simp add: example_one_node_def)
  show ?thesis using h reachable_rendering_clean [OF h] by simp
qed

end
