(* ===== verification/Reparse.thy ===== *)
theory Reparse
  imports Render
begin

text \<open>
  The \<open>[Interface]\<close> block of \<open>src/genConf.js\<close> (lines 62--70) printed back through the
  parser of lines 39--53: the block of a node loaded without diagnostics is itself a
  well-formed definition fragment.  Re-parsed, it throws no exception, prints no warning,
  and gives back every interface setting of the node with its values in order, the
  excluded keys dropped and, when the node had no \<open>PrivateKey\<close>, the placeholder
  value.  The lines of the block are \<open>iface_lines\<close>; \<open>clean_value\<close> is the shape of every
  value the parser stores (trimmed, no line terminator).
\<close>

section \<open>The lines of the interface block\<close>

definition value_line :: "string \<Rightarrow> string \<Rightarrow> string" where
  "value_line k d = k @ '' = '' @ d"

definition iface_lines :: "node_obj \<Rightarrow> string list" where
  "iface_lines obj =
     ''[Interface]'' # (if js_has obj ''PrivateKey'' then [] else [''PrivateKey = >>>REPLACE WITH PRIVATE KEY<<<'']) @
     concat (map (\<lambda>p. case snd p of Arr vs \<Rightarrow> map (value_line (fst p)) vs | JTrue \<Rightarrow> [])
       (filter (\<lambda>p. fst p \<notin> set exclude_interface) (js_entries obj)))"

definition clean_value :: "string \<Rightarrow> bool" where
  "clean_value d \<longleftrightarrow> js_trim d = d \<and> \<not> list_ex is_line_terminator d"

definition iface_clean :: "node_obj \<Rightarrow> bool" where
  "iface_clean obj \<longleftrightarrow> valid_node obj \<and>
     list_all (\<lambda>p. case snd p of Arr vs \<Rightarrow> list_all clean_value vs | JTrue \<Rightarrow> True)
       (filter (\<lambda>p. fst p \<notin> set exclude_interface) obj)"

abbreviation value_text_lines :: "(string \<times> jsval) list \<Rightarrow> string list" where
  "value_text_lines es \<equiv>
     concat (map (\<lambda>p. case snd p of Arr vs \<Rightarrow> map (value_line (fst p)) vs | JTrue \<Rightarrow> []) es)"

section \<open>Lemmas\<close>

lemma concat_value_lines:
  "concat (map value_lines es) =
   concat (map (\<lambda>l. l @ [CHR 0x0A])
     (concat (map (\<lambda>p. case snd p of Arr vs \<Rightarrow> map (value_line (fst p)) vs | JTrue \<Rightarrow> []) es)))"
  by (induction es) (auto simp: value_lines_def value_line_def comp_def split: jsval.splits)

lemma iface_spec_lines: "iface_spec obj = concat (map (\<lambda>l. l @ [CHR 0x0A]) (iface_lines obj))"
  by (simp add: iface_spec_def iface_header_def placeholder_line_def iface_lines_def concat_value_lines)

lemma allowed_key_trim: "k \<in> set allowed_keys \<Longrightarrow> js_trim (k @ '' '') = k"
  by (auto simp: allowed_keys_def js_eval)

lemma allowed_key_chars:
  "k \<in> set allowed_keys \<Longrightarrow> CHR ''='' \<notin> set k \<and> CHR 0x0A \<notin> set k \<and> CHR 0x0D \<notin> set k"
  by (auto simp: allowed_keys_def)

lemma value_line_parts:
  assumes "k \<in> set allowed_keys" and "clean_value d"
  shows "line_key (value_line k d) = k" and "js_trim (line_rest (value_line k d)) = d"
proof -
  have eq: "k @ '' = '' @ d = (k @ '' '') @ CHR ''='' # ('' '' @ d)" by simp
  have "CHR ''='' \<notin> set (k @ '' '')" using allowed_key_chars [OF assms(1)] by simp
  then have s0: "js_split_first_eq ((k @ '' '') @ CHR ''='' # ('' '' @ d)) =
      (k @ '' '', takeWhile (\<lambda>c. \<not> is_line_terminator c) ('' '' @ d))"
    by (rule js_split_first_eq_append)
  have tw: "takeWhile (\<lambda>c. \<not> is_line_terminator c) ('' '' @ d) = '' '' @ d"
    using assms(2) by (simp add: clean_value_def takeWhile_eq_all_conv list_ex_iff is_line_terminator_def)
  from s0 tw have s: "js_split_first_eq (value_line k d) = (k @ '' '', '' '' @ d)"
    by (simp only: eq value_line_def)
  show "line_key (value_line k d) = k"
    using s allowed_key_trim [OF assms(1)] by (simp add: line_key_def)
  show "js_trim (line_rest (value_line k d)) = d"
    using s assms(2) by (simp add: line_rest_def js_trim_space_Cons clean_value_def js_eval)
qed

lemma allowed_not_proto: "k \<in> set allowed_keys \<Longrightarrow> k \<notin> set object_proto_props"
  by (auto simp: allowed_keys_def object_proto_props_def)

lemma not_excluded_plain: "k \<notin> set exclude_interface \<Longrightarrow> k \<notin> set (''ConnectTo'' # flag_keys)"
proof -
  assume k: "k \<notin> set exclude_interface"
  have "''ConnectTo'' \<in> set exclude_interface" by (simp add: exclude_interface_def)
  with k flag_keys_excluded [of k] show ?thesis by auto
qed

lemma attr_values_Nil: "attr_values [] k = []"
  by (simp add: attr_values_def)

lemma values_of_append: "values_of k (xs @ ys) = values_of k xs @ values_of k ys"
  by (simp add: values_of_def kv_lines_def)

lemma value_line_eq: "CHR ''='' \<in> set (value_line k d)"
  by (simp add: value_line_def)

lemma values_of_value_line:
  "k' \<in> set allowed_keys \<Longrightarrow> clean_value d \<Longrightarrow>
   values_of k [value_line k' d] = (if k' = k then [d] else [])"
  by (cases "k' = k") (simp_all add: values_of_def kv_lines_def value_line_parts value_line_eq)

lemma values_of_value_line_list:
  "k' \<in> set allowed_keys \<Longrightarrow> list_all clean_value vs \<Longrightarrow>
   values_of k (map (value_line k') vs) = (if k' = k then vs else [])"
proof (induction vs)
  case Nil
  then show ?case by (simp add: values_of_def kv_lines_def)
next
  case (Cons d vs)
  then show ?case using values_of_append [of k "[value_line k' d]"] by (simp add: values_of_value_line)
qed

lemma values_of_value_lines:
  assumes "\<forall>p \<in> set es. fst p \<in> set allowed_keys \<and> (case snd p of Arr vs \<Rightarrow> list_all clean_value vs | JTrue \<Rightarrow> True)"
  shows "values_of k (value_text_lines es) =
     concat (map (\<lambda>p. if fst p = k then (case snd p of Arr vs \<Rightarrow> vs | JTrue \<Rightarrow> []) else []) es)"
  using assms
proof (induction es)
  case Nil
  then show ?case by (simp add: values_of_def kv_lines_def)
next
  case (Cons p es)
  have "values_of k (case snd p of Arr vs \<Rightarrow> map (value_line (fst p)) vs | JTrue \<Rightarrow> []) =
        (if fst p = k then (case snd p of Arr vs \<Rightarrow> vs | JTrue \<Rightarrow> []) else [])"
  proof (cases "snd p")
    case (Arr vs)
    with Cons.prems have "fst p \<in> set allowed_keys" "list_all clean_value vs" by auto
    then show ?thesis using Arr by (simp add: values_of_value_line_list)
  qed (simp add: values_of_def kv_lines_def)
  with Cons show ?case by (simp add: values_of_append)
qed

lemma concat_key_values_none:
  "k \<notin> fst ` set es \<Longrightarrow>
   concat (map (\<lambda>p. if fst p = k then (case snd p of Arr vs \<Rightarrow> vs | JTrue \<Rightarrow> []) else []) es) = []"
  by (induction es) auto

lemma concat_key_values:
  "distinct (map fst es) \<Longrightarrow>
   concat (map (\<lambda>p. if fst p = k then (case snd p of Arr vs \<Rightarrow> vs | JTrue \<Rightarrow> []) else []) es) = attr_values es k"
proof (induction es)
  case Nil
  then show ?case by (simp add: attr_values_def)
next
  case (Cons p es)
  obtain k' v where p: "p = (k', v)" by fastforce
  show ?case
  proof (cases "k' = k")
    case True
    have "k \<notin> fst ` set es" using Cons.prems p True by simp
    then show ?thesis using p True
      by (simp add: concat_key_values_none attr_values_def split: jsval.split)
  next
    case False
    with Cons p show ?thesis by (simp add: attr_values_def)
  qed
qed

lemma iface_clean_entries:
  assumes "iface_clean obj"
  shows "\<forall>p \<in> set (filter (\<lambda>p. fst p \<notin> set exclude_interface) (js_entries obj)).
           fst p \<in> set allowed_keys \<and> (case snd p of Arr vs \<Rightarrow> list_all clean_value vs | JTrue \<Rightarrow> True)"
  using assms by (auto simp: iface_clean_def valid_node_def list_all_iff)

lemma values_of_header: "values_of k [''[Interface]''] = []"
  by (simp add: values_of_def kv_lines_def)

lemma values_of_Nil: "values_of k [] = []"
  by (simp add: values_of_def kv_lines_def)

lemma values_of_empty_line: "values_of k [[]] = []"
  by (simp add: values_of_def kv_lines_def)

lemma values_of_placeholder:
  "values_of k [''PrivateKey = >>>REPLACE WITH PRIVATE KEY<<<''] =
   (if k = ''PrivateKey'' then [''>>>REPLACE WITH PRIVATE KEY<<<''] else [])"
  by (simp add: values_of_def kv_lines_def line_key_def line_rest_def js_eval)

lemma values_of_iface_lines:
  assumes "iface_clean obj" and "k \<notin> set exclude_interface"
  shows "values_of k (iface_lines obj @ [[]]) =
     (if k = ''PrivateKey'' \<and> \<not> js_has obj ''PrivateKey'' then [''>>>REPLACE WITH PRIVATE KEY<<<'']
      else attr_values obj k)"
proof -
  let ?es = "filter (\<lambda>p. fst p \<notin> set exclude_interface) (js_entries obj)"
  have wf: "wf_obj obj" using assms(1) by (simp add: iface_clean_def valid_node_def)
  then have d: "distinct (map fst ?es)"
    by (simp add: wf_obj_def distinct_map_filter distinct_js_entries)
  have "attr_values ?es k = attr_values obj k"
    using assms(2) wf map_of_filter_key [of "\<lambda>k. k \<notin> set exclude_interface" k "js_entries obj"]
    by (simp add: attr_values_def map_of_js_entries wf_obj_def)
  then have v: "values_of k (value_text_lines ?es) = attr_values obj k"
    using values_of_value_lines [OF iface_clean_entries [OF assms(1)]] concat_key_values [OF d] by simp
  have pk: "attr_values obj ''PrivateKey'' = []" if "\<not> js_has obj ''PrivateKey''"
  proof -
    from that have "js_get obj ''PrivateKey'' = None" by (simp add: map_of_eq_None_iff)
    then show ?thesis by (simp add: attr_values_def)
  qed
  have ph: "values_of k (if js_has obj ''PrivateKey'' then [] else [''PrivateKey = >>>REPLACE WITH PRIVATE KEY<<<'']) =
      (if k = ''PrivateKey'' \<and> \<not> js_has obj ''PrivateKey'' then [''>>>REPLACE WITH PRIVATE KEY<<<''] else [])"
    by (cases "js_has obj ''PrivateKey''") (simp_all only: if_True if_False values_of_placeholder values_of_Nil, simp_all)
  have l: "iface_lines obj @ [[]] =
      [''[Interface]''] @ (if js_has obj ''PrivateKey'' then [] else [''PrivateKey = >>>REPLACE WITH PRIVATE KEY<<<''])
      @ value_text_lines ?es @ [[]]"
    by (simp only: iface_lines_def append_Cons append_Nil append_assoc)
  have "values_of k (iface_lines obj @ [[]]) =
      (if k = ''PrivateKey'' \<and> \<not> js_has obj ''PrivateKey'' then [''>>>REPLACE WITH PRIVATE KEY<<<''] else []) @
      attr_values obj k"
    by (simp only: l values_of_append values_of_header values_of_empty_line ph v append_Nil append_Nil2)
  then show ?thesis using pk by (cases "k = ''PrivateKey'' \<and> \<not> js_has obj ''PrivateKey''") simp_all
qed

lemma value_text_lines_member:
  assumes "l \<in> set (value_text_lines es)"
  obtains p vs d where "p \<in> set es" "snd p = Arr vs" "d \<in> set vs" "l = value_line (fst p) d"
proof -
  from assms obtain p where p: "p \<in> set es"
    and l: "l \<in> set (case snd p of Arr vs \<Rightarrow> map (value_line (fst p)) vs | JTrue \<Rightarrow> [])" by auto
  from l obtain vs d where "snd p = Arr vs" "d \<in> set vs" "l = value_line (fst p) d"
    by (cases "snd p") auto
  with p that show ?thesis by blast
qed

lemma iface_clean_entry:
  assumes "iface_clean obj" and "p \<in> set (filter (\<lambda>p. fst p \<notin> set exclude_interface) (js_entries obj))"
    and "snd p = Arr vs" and "d \<in> set vs"
  shows "fst p \<in> set allowed_keys \<and> clean_value d"
proof -
  from iface_clean_entries [OF assms(1)] assms(2)
  have "fst p \<in> set allowed_keys \<and> (case snd p of Arr vs \<Rightarrow> list_all clean_value vs | JTrue \<Rightarrow> True)"
    by (rule bspec)
  with assms(3,4) show ?thesis by (simp add: list_all_iff)
qed

lemma iface_lines_keys:
  assumes "iface_clean obj" and "l \<in> set (kv_lines (iface_lines obj @ [[]]))"
  shows "line_key l \<in> set allowed_keys \<and> line_key l \<notin> set exclude_interface"
proof -
  let ?es = "filter (\<lambda>p. fst p \<notin> set exclude_interface) (js_entries obj)"
  from assms(2) have eq: "CHR ''='' \<in> set l" and "l \<in> set (iface_lines obj)"
    by (auto simp: kv_lines_def)
  then have "l = ''PrivateKey = >>>REPLACE WITH PRIVATE KEY<<<'' \<or> l \<in> set (value_text_lines ?es)"
    by (auto simp: iface_lines_def split: if_splits)
  then show ?thesis
  proof
    assume "l = ''PrivateKey = >>>REPLACE WITH PRIVATE KEY<<<''"
    then show ?thesis by (simp add: line_key_def js_eval allowed_keys_def exclude_interface_def)
  next
    assume "l \<in> set (value_text_lines ?es)"
    then obtain p vs d where p: "p \<in> set ?es" "snd p = Arr vs" "d \<in> set vs" "l = value_line (fst p) d"
      by (rule value_text_lines_member)
    with iface_clean_entry [OF assms(1)] have "fst p \<in> set allowed_keys" "clean_value d"
      by blast+
    with p show ?thesis by (simp add: value_line_parts)
  qed
qed

lemma iface_lines_no_newline:
  assumes "iface_clean obj" and "l \<in> set (iface_lines obj)"
  shows "CHR 0x0A \<notin> set l \<and> CHR 0x0D \<notin> set l"
proof -
  let ?es = "filter (\<lambda>p. fst p \<notin> set exclude_interface) (js_entries obj)"
  from assms(2) have "l = ''[Interface]'' \<or> l = ''PrivateKey = >>>REPLACE WITH PRIVATE KEY<<<'' \<or>
      l \<in> set (value_text_lines ?es)"
    by (auto simp: iface_lines_def split: if_splits)
  then show ?thesis
  proof (elim disjE)
    assume "l \<in> set (value_text_lines ?es)"
    then obtain p vs d where p: "p \<in> set ?es" "snd p = Arr vs" "d \<in> set vs" "l = value_line (fst p) d"
      by (rule value_text_lines_member)
    with iface_clean_entry [OF assms(1)] have "fst p \<in> set allowed_keys" "clean_value d"
      by blast+
    with p show ?thesis
      by (auto simp: value_line_def clean_value_def list_ex_iff is_line_terminator_def dest: allowed_key_chars)
  qed simp_all
qed

lemma iface_lines_parse:
  assumes "iface_clean obj"
  shows "\<exists>obj'. parse_lines f ([], g) (iface_lines obj @ [[]]) = Inr (obj', g) \<and>
     (\<forall>k. attr_values obj' k =
        (if k \<in> set exclude_interface then []
         else if k = ''PrivateKey'' \<and> \<not> js_has obj ''PrivateKey'' then [''>>>REPLACE WITH PRIVATE KEY<<<'']
         else attr_values obj k))"
proof -
  let ?L = "iface_lines obj @ [[]]"
  have keys: "\<forall>l \<in> set (kv_lines ?L). line_key l \<in> set allowed_keys"
    and nex: "\<forall>l \<in> set (kv_lines ?L). line_key l \<notin> set exclude_interface"
    using iface_lines_keys [OF assms] by blast+
  then have "\<not> list_ex proto_line ?L"
    by (auto simp: list_ex_iff proto_line_def kv_lines_def dest: allowed_not_proto)
  then obtain obj' where o: "obj_lines [] ?L = Inr obj'"
    using obj_lines_Inl_iff [OF wf_obj_Nil, of ?L] by (cases "obj_lines [] ?L") auto
  have u: "unfamiliar_diags f ?L = []"
    using keys by (simp add: unfamiliar_diags_def concat_if_empty)
  have "fold (line_gstate f) ?L g = g" unfolding fold_line_gstate u by simp
  with o have p: "parse_lines f ([], g) ?L = Inr (obj', g)" by (simp add: parse_lines_split)
  have "attr_values obj' k =
      (if k = ''PrivateKey'' \<and> \<not> js_has obj ''PrivateKey'' then [''>>>REPLACE WITH PRIVATE KEY<<<'']
       else attr_values obj k)" if k: "k \<notin> set exclude_interface" for k
  proof -
    from k have "k \<notin> set (''ConnectTo'' # flag_keys)" by (rule not_excluded_plain)
    then have "attr_values obj' k = attr_values [] k @ values_of k ?L"
      by (rule obj_lines_values [OF o])
    then have "attr_values obj' k = values_of k ?L" by (simp add: attr_values_Nil)
    with values_of_iface_lines [OF assms k] show ?thesis by simp
  qed
  moreover have "attr_values obj' k = []" if k: "k \<in> set exclude_interface" for k
  proof -
    have "fst ` set obj' \<subseteq> line_key ` set (kv_lines ?L)"
      using obj_lines_keys [OF o] by simp
    with nex k have "js_get obj' k = None" by (auto simp: map_of_eq_None_iff)
    then show ?thesis by (simp add: attr_values_def)
  qed
  ultimately show ?thesis using p by auto
qed

lemma clean_trimmed_rest: "clean_value (js_trim (line_rest l))"
proof -
  have "\<not> is_line_terminator c" if "c \<in> set (line_rest l)" for c
    using that by (auto simp: line_rest_def js_split_first_eq_def dest: set_takeWhileD)
  with set_js_trim [of "line_rest l"] show ?thesis
    by (auto simp: clean_value_def js_trim_idem list_ex_iff)
qed

lemma wf_obj_attr_values:
  "wf_obj obj \<Longrightarrow> p \<in> set obj \<Longrightarrow> snd p = Arr vs \<Longrightarrow> attr_values obj (fst p) = vs"
  by (cases p) (simp add: attr_values_def wf_obj_def)

lemma file_obj_iface_clean:
  assumes "\<not> file_crashes c" and "file_diags f c = []"
  shows "iface_clean (file_obj c)"
proof -
  have v: "valid_node (file_obj c)" using assms by (rule file_obj_valid)
  then have wf: "wf_obj (file_obj c)" by (simp add: valid_node_def)
  have "list_all clean_value vs" if p: "p \<in> set (file_obj c)" "fst p \<notin> set exclude_interface"
    "snd p = Arr vs" for p vs
  proof -
    from p(2) have "fst p \<notin> set (''ConnectTo'' # flag_keys)" by (rule not_excluded_plain)
    then have "attr_values (file_obj c) (fst p) = attr_values [] (fst p) @ values_of (fst p) (js_split_lines c)"
      by (rule obj_lines_values [OF file_obj_Inr [OF assms(1)]])
    then have "attr_values (file_obj c) (fst p) = values_of (fst p) (js_split_lines c)"
      by (simp add: attr_values_Nil)
    with wf_obj_attr_values [OF wf p(1,3)] show ?thesis
      by (auto simp: values_of_def list_all_iff clean_trimmed_rest)
  qed
  with v show ?thesis by (auto simp: iface_clean_def list_all_iff split: jsval.split)
qed

section \<open>Properties\<close>

text \<open>C23. Print/parse round trip of the interface block: for a \<open>.wg\<close> file that loads
  without exception or diagnostic, the \<open>[Interface]\<close> text the renderer produces parses
  back, without warning, to an object holding exactly the node's interface settings:
  nothing under the excluded keys, the placeholder under \<open>PrivateKey\<close> when the node
  has none, and every other key's values unchanged and in order.\<close>

theorem iface_block_reparses:
  assumes "\<not> file_crashes c" and "file_diags f c = []"
  shows "\<exists>s obj'. iface_block (file_obj c) = Inr s \<and>
     parse_lines f' ([], g) (js_split_lines s) = Inr (obj', g) \<and>
     (\<forall>k. attr_values obj' k =
        (if k \<in> set exclude_interface then []
         else if k = ''PrivateKey'' \<and> \<not> js_has (file_obj c) ''PrivateKey'' then [''>>>REPLACE WITH PRIVATE KEY<<<'']
         else attr_values (file_obj c) k))"
proof -
  have cl: "iface_clean (file_obj c)" using assms by (rule file_obj_iface_clean)
  then have "wf_obj (file_obj c)" by (simp add: iface_clean_def valid_node_def)
  then have b: "iface_block (file_obj c) = Inr (iface_spec (file_obj c))" by (rule iface_block_wf)
  have "js_split_lines (iface_spec (file_obj c)) = iface_lines (file_obj c) @ [[]]"
    using iface_lines_no_newline [OF cl] by (simp add: iface_spec_lines js_split_lines_terminated)
  with b iface_lines_parse [OF cl, of f' g] show ?thesis by auto
qed

theorem iface_block_reparses_witness:
  "\<not> file_crashes ''Address = 10.0.0.1/32\<newline>PublicKey = pkA\<newline>ListenPort = 51820\<newline>ConnectTo = B'' \<and>
   file_diags ''A.wg'' ''Address = 10.0.0.1/32\<newline>PublicKey = pkA\<newline>ListenPort = 51820\<newline>ConnectTo = B'' = [] \<and>
   (\<exists>s obj'. iface_block (file_obj ''Address = 10.0.0.1/32\<newline>PublicKey = pkA\<newline>ListenPort = 51820\<newline>ConnectTo = B'') = Inr s \<and>
      parse_lines ''A.wg'' ([], init_state) (js_split_lines s) = Inr (obj', init_state) \<and>
      attr_values obj' ''PrivateKey'' = [''>>>REPLACE WITH PRIVATE KEY<<<''] \<and>
      attr_values obj' ''ListenPort'' = [''51820''] \<and> attr_values obj' ''ConnectTo'' = [])"
proof -
  let ?c = "''Address = 10.0.0.1/32\<newline>PublicKey = pkA\<newline>ListenPort = 51820\<newline>ConnectTo = B''"
  have h1: "\<not> file_crashes ?c" by (simp add: spec_defs js_eval model_defs Let_def file_crashes_def)
  have h2: "file_diags ''A.wg'' ?c = []"
    by (simp add: spec_defs js_eval model_defs Let_def file_diags_def missing_diags_def file_obj_def image_iff)
  have o: "file_obj ?c = [(''Address'', Arr [''10.0.0.1/32'']), (''PublicKey'', Arr [''pkA'']),
      (''ListenPort'', Arr [''51820'']), (''ConnectTo'', Arr [''B''])]"
    by (simp add: spec_defs js_eval model_defs Let_def file_obj_def)
  obtain s obj' where r: "iface_block (file_obj ?c) = Inr s"
    "parse_lines ''A.wg'' ([], init_state) (js_split_lines s) = Inr (obj', init_state)"
    "\<forall>k. attr_values obj' k =
        (if k \<in> set exclude_interface then []
         else if k = ''PrivateKey'' \<and> \<not> js_has (file_obj ?c) ''PrivateKey'' then [''>>>REPLACE WITH PRIVATE KEY<<<'']
         else attr_values (file_obj ?c) k)"
    using iface_block_reparses [OF h1 h2, of "''A.wg''" init_state] by blast
  have "attr_values obj' ''PrivateKey'' = [''>>>REPLACE WITH PRIVATE KEY<<<'']"
    using r(3) o by (simp add: exclude_interface_def)
  moreover have "attr_values obj' ''ListenPort'' = [''51820'']"
    using r(3) o by (simp add: exclude_interface_def attr_values_def)
  moreover have "attr_values obj' ''ConnectTo'' = []"
    using r(3) by (simp add: exclude_interface_def)
  ultimately show ?thesis using h1 h2 r(1,2) by blast
qed

end
