(* ===== verification/Spec2Isabelle.thy ===== *)
theory Spec2Isabelle
  imports Run Reparse
begin

text \<open>
  \<^bold>\<open>A verified model of \<open>src/genConf.js\<close>.\<close>

  \<^emph>\<open>The program.\<close>  \<open>genConf.js\<close> is a Node.js script of 91 lines.  It reads every
  entry of the directory \<open>nodes\<close> whose name ends in \<open>.wg\<close>, parses each such file
  into a node object (lines 36--53), warns about unrecognised keys and missing required keys
  (lines 43--46, 54--57), exits with status -1 if it warned (line 59), and otherwise writes
  WireGuard configurations into \<open>conf_output\<close>: for every node an \<open>[Interface]\<close> block
  (lines 62--70) and one \<open>[Peer]\<close> section per other node that passes the inclusion test
  (lines 74--86), in one file per node or, with \<open>SplitFiles = true\<close>, one file per peer
  (lines 87--91).  Its parts interact only through the module-level object \<open>nodes\<close>
  (filled by the parser, read by the renderer) and the flag \<open>err\<close>.

  \<^emph>\<open>The theories.\<close>
  \<^item> \<open>Prelude\<close>: the named theorem collections \<open>js_eval\<close>, \<open>model_defs\<close> and
    \<open>spec_defs\<close> (the definitions to unfold when a concrete run is evaluated), sequencing
    of computations that may throw (\<open>sbind\<close>, \<open>js_or\<close> for short-circuit \<open>||\<close>), and
    generic list and sum lemmas.
  \<^item> \<open>JsRuntime\<close>: the JavaScript semantics the script relies on, modelled from
    ECMA-262 because it is not repository code: \<open>trim\<close>, \<open>split(',')\<close>,
    \<open>split(/\r?\n/)\<close>, \<open>split(/=(.*)/)\<close>, \<open>endsWith\<close>, plain objects as
    insertion-ordered association lists (\<open>js_set\<close>, \<open>js_get\<close>, \<open>js_has\<close>) with the
    \<open>Object.entries\<close> order (array-index keys first, ascending), and the properties
    inherited from \<open>Object.prototype\<close>.  Lemmas: the round trip of \<open>split(/=(.*)/)\<close> on a
    \<open>key=value\<close> line, \<open>trim\<close> leaves no white space at either end, how
    \<open>split(/\r?\n/)\<close> treats a line appended to a text, \<open>js_set\<close> as map update, and
    \<open>Object.entries\<close> is a permutation that keeps insertion order without index keys and
    commutes with removing keys.
  \<^item> \<open>Parser\<close> (DefinitionParser, lines 8--27 and 39--53): the key vocabulary, node
    objects (\<open>jsval\<close>: an array of strings or \<open>true\<close>), the diagnostics \<open>diag\<close>, the
    global state \<open>gstate\<close> (\<open>nodes\<close>, \<open>err\<close>, printed warnings), the handler of one
    line \<open>parse_line\<close> and the \<open>forEach\<close> over the lines \<open>parse_lines\<close>.  An exception
    is a value \<open>Inl (error, state)\<close>.  The specification of a file's meaning is given by
    \<open>values_of\<close>, \<open>connect_values\<close>, \<open>flag_set\<close> and \<open>unfamiliar_diags\<close>; the lemmas
    split the handler into its effect on the object (\<open>line_obj\<close>) and on the global
    state (\<open>line_gstate\<close>), prove the invariant \<open>wf_obj\<close> (distinct keys, flags hold
    \<open>true\<close>, every other key a non-empty array, no inherited key) and characterise
    exactly when a line throws.
  \<^item> \<open>Registry\<close> (NodeRegistry, lines 31--59): \<open>load_file\<close> and \<open>load_all\<close> over the
    directory listing, \<open>check_must_have\<close>; the closed form of the loop
    (\<open>load_all_ok\<close>: the registry \<open>foldl add_node\<close>, the warnings \<open>spec_diags\<close>), the
    crash characterisation and the validity of every node when no diagnostic is issued.
  \<^item> \<open>Topology\<close> (PeerTopologyResolver, lines 74--78): \<open>skip_peer\<close> with JavaScript's
    short-circuit evaluation; the specification's inclusion rule \<open>peer_rule\<close> and the
    refinement \<open>skip_peer_refines\<close>; the peer graph \<open>peer_edges\<close> the code builds over
    a whole registry, undirected and without loops.
  \<^item> \<open>Render\<close> (ConfigRenderer, lines 29 and 61--91): \<open>iface_block\<close>, \<open>peer_section\<close>,
    the peer loop \<open>peer_loop\<close> with its accumulator and its file writes, \<open>render_node\<close>
    and \<open>render_all\<close>; the specification of the output (\<open>iface_spec\<close>,
    \<open>section_spec\<close>, \<open>node_files\<close>) and the proof that the code computes it on a valid
    registry, without throwing; the frame properties that a peer section reads only six
    keys (keep-alive from the node, the rest from the peer) and that the excluded keys
    never reach the interface block.
  \<^item> \<open>Output\<close> (file-system I/O, lines 88 and 91): \<open>fs.writeFileSync\<close> as the store
    update \<open>write_file\<close> and the directory a run leaves behind, \<open>output_fs\<close>, where a
    later write to a path replaces an earlier one; the paths of a node's files and
    when two nodes' paths are disjoint.
  \<^item> \<open>Program\<close>: the whole script \<open>gen_conf\<close>, from the directory listing to a
    \<open>run_result\<close> (\<open>Crashed\<close>, \<open>Failed\<close> or \<open>Completed\<close> with the files written in
    order); its refinement of the specification, the final directory of a clean run,
    and that entries not ending in \<open>.wg\<close> are ignored.
  \<^item> \<open>Reparse\<close>: the printed \<open>[Interface]\<close> block read back by the parser; the round
    trip that it re-parses, without warning, to the node's interface settings.
  \<^item> \<open>Run\<close>: the same script as a transition system \<open>run_step\<close> on configurations
    \<open>config\<close> (\<open>Loading\<close> with the global state and the directory entries left,
    \<open>Rendering\<close> with the nodes left and the files written, \<open>Halted\<close> with a result):
    one step per directory entry (line 37--57), the exit decision (line 59), one step
    per rendered node (lines 62--91) and the end of the loop.  Proved by rule induction
    over the reachable configurations (\<open>reachable\<close>, invariant \<open>run_inv\<close>): while
    loading, the registry is well formed and \<open>err\<close> is set exactly when a warning was
    printed; rendering starts only from a clean, well-formed registry.
  \<^item> This theory: two behaviours the modelling brought to light, stated for all nodes
    (an empty \<open>ConnectTo\<close> isolates a node, an empty \<open>Endpoint\<close> counts as an
    endpoint), and the witnesses of the theorems with hypotheses.

  \<^emph>\<open>How the model corresponds to the code.\<close>  Every loop of the script runs over a finite
  list (lines, directory entries, object entries), so every loop is a structural \<open>fun\<close>
  and no fuel is needed: the model terminates on every input, and the theorems about
  \<open>gen_conf\<close> are about a total function.  The transition system of \<open>Run\<close> makes the
  order of the script's effects explicit, one directory entry or one node per step.  Mutation of the node object through its alias
  \<open>obj\<close> is modelled by storing the finished object at the end of its file, which gives
  the same object at the same position since \<open>nodes\<close> is not read in between.
  \<open>console.warn\<close> appends to \<open>warnings\<close>; \<open>fs.writeFileSync\<close> appends to the list of
  files written.  The directory listing and the file contents are the input of
  \<open>gen_conf\<close>, in \<open>readdirSync\<close> order.

  \<^emph>\<open>Not modelled.\<close>  Of the file system only the effect of \<open>writeFileSync\<close> on the
  output directory is modelled; \<open>readdirSync\<close> and \<open>readFileSync\<close> are the input
  list, and a directory entry that is a directory, a missing \<open>conf_output\<close>, and read
  or write errors are not modelled (they end the process with an I/O exception that
  has no domain logic).  Also not modelled: the
  text of \<open>console.warn\<close> beyond \<open>diag_msg\<close>, \<open>path.join\<close>'s normalisation (names of
  directory entries contain no \<open>/\<close>), code units above U+00FF, and a node named
  \<open>__proto__\<close> (the assignment of line 38 would then set the prototype of \<open>nodes\<close>).
\<close>

section \<open>Example inputs\<close>

definition example_split_registry :: "node_obj js_obj" where
  "example_split_registry =
     [(''F'', [(''Address'', Arr [''10.0.0.6/32'']), (''PublicKey'', Arr [''pkF'']),
               (''SplitFiles'', JTrue), (''Endpoint'', Arr [''f.example.com:51820''])]),
      (''G'', [(''Address'', Arr [''10.0.0.7/32'']), (''PublicKey'', Arr [''pkG''])]),
      (''H'', [(''Address'', Arr [''10.0.0.8/32'']), (''PublicKey'', Arr [''pkH''])])]"

definition example_route_registry :: "node_obj js_obj" where
  "example_route_registry =
     [(''D'', [(''Address'', Arr [''10.0.0.4/32'']), (''PublicKey'', Arr [''pkD'']),
               (''DefaultRoute'', JTrue)]),
      (''E'', [(''Address'', Arr [''10.0.0.5/32'']), (''PublicKey'', Arr [''pkE'']),
               (''Endpoint'', Arr [''e.example.com:51820''])])]"

definition example_lonely_split :: "node_obj js_obj" where
  "example_lonely_split =
     [(''F'', [(''Address'', Arr [''10.0.0.6/32'']), (''PublicKey'', Arr [''pkF'']), (''SplitFiles'', JTrue)]),
      (''G'', [(''Address'', Arr [''10.0.0.7/32'']), (''PublicKey'', Arr [''pkG''])])]"

definition example_empty_endpoint :: node_obj where
  "example_empty_endpoint =
     [(''Address'', Arr [''10.0.0.1/32'']), (''PublicKey'', Arr [''pkA'']), (''Endpoint'', Arr [[]])]"

section \<open>Witnesses of the component theorems\<close>

theorem skip_peer_symmetric_witness:
  "wf_obj [(''Endpoint'', Arr [''a.example.com:1''])] \<and> wf_obj [(''ConnectTo'', Arr [''A''])] \<and>
   skip_peer (''A'', [(''Endpoint'', Arr [''a.example.com:1''])]) (''B'', [(''ConnectTo'', Arr [''A''])]) =
   skip_peer (''B'', [(''ConnectTo'', Arr [''A''])]) (''A'', [(''Endpoint'', Arr [''a.example.com:1''])])"
proof -
  have h1: "wf_obj [(''Endpoint'', Arr [''a.example.com:1''])]"
    by (simp add: spec_defs js_eval model_defs)
  have h2: "wf_obj [(''ConnectTo'', Arr [''A''])]"
    by (simp add: spec_defs js_eval model_defs)
  show ?thesis using h1 h2 skip_peer_symmetric [OF h1 h2] by simp
qed

theorem parse_lines_values_witness:
  "parse_lines ''N.wg'' ([], init_state) [''PostUp = a'', ''# note'', '' PostUp= b ''] =
     Inr ([(''PostUp'', Arr [''a'', ''b''])], init_state) \<and>
   ''PostUp'' \<notin> set (''ConnectTo'' # flag_keys) \<and>
   attr_values [(''PostUp'', Arr [''a'', ''b''])] ''PostUp'' =
     attr_values [] ''PostUp'' @ values_of ''PostUp'' [''PostUp = a'', ''# note'', '' PostUp= b '']"
proof -
  have h1: "parse_lines ''N.wg'' ([], init_state) [''PostUp = a'', ''# note'', '' PostUp= b ''] =
     Inr ([(''PostUp'', Arr [''a'', ''b''])], init_state)"
    by (simp add: js_eval model_defs Let_def)
  have h2: "''PostUp'' \<notin> set (''ConnectTo'' # flag_keys)"
    by (simp add: flag_keys_def)
  show ?thesis using h1 h2 parse_lines_values [OF h1 h2] by simp
qed

theorem parse_lines_connect_witness:
  "parse_lines ''N.wg'' ([], init_state) [''ConnectTo = B, C'', ''ConnectTo=D''] =
     Inr ([(''ConnectTo'', Arr [''B'', ''C'', ''D''])], init_state) \<and>
   attr_values [(''ConnectTo'', Arr [''B'', ''C'', ''D''])] ''ConnectTo'' =
     attr_values [] ''ConnectTo'' @ connect_values [''ConnectTo = B, C'', ''ConnectTo=D'']"
proof -
  have h: "parse_lines ''N.wg'' ([], init_state) [''ConnectTo = B, C'', ''ConnectTo=D''] =
     Inr ([(''ConnectTo'', Arr [''B'', ''C'', ''D''])], init_state)"
    by (simp add: js_eval model_defs Let_def)
  show ?thesis using h parse_lines_connect [OF h] by simp
qed

theorem parse_lines_flag_witness:
  "parse_lines ''N.wg'' ([], init_state) [''DefaultRoute = true'', ''DefaultRoute = false''] =
     Inr ([(''DefaultRoute'', JTrue)], init_state) \<and>
   ''DefaultRoute'' \<in> set flag_keys \<and>
   js_get [(''DefaultRoute'', JTrue)] ''DefaultRoute'' =
     (if flag_set ''DefaultRoute'' [''DefaultRoute = true'', ''DefaultRoute = false'']
      then Some JTrue else js_get [] ''DefaultRoute'')"
proof -
  have h1: "parse_lines ''N.wg'' ([], init_state) [''DefaultRoute = true'', ''DefaultRoute = false''] =
     Inr ([(''DefaultRoute'', JTrue)], init_state)"
    by (simp add: js_eval model_defs Let_def)
  have h2: "''DefaultRoute'' \<in> set flag_keys"
    by (simp add: flag_keys_def)
  show ?thesis using h1 h2 parse_lines_flag [OF h1 h2] by simp
qed

theorem split_files_cumulative_witness:
  "valid_registry example_split_registry \<and>
   valid_node (snd (hd example_split_registry)) \<and>
   js_has (snd (hd example_split_registry)) ''SplitFiles'' \<and>
   render_node example_split_registry [] (''F'', snd (hd example_split_registry)) =
     Inr (node_files example_split_registry (''F'', snd (hd example_split_registry))) \<and>
   length (node_files example_split_registry (''F'', snd (hd example_split_registry))) =
     length (peers_spec example_split_registry (''F'', snd (hd example_split_registry)))"
proof -
  let ?o = "snd (hd example_split_registry)"
  have h1: "valid_registry example_split_registry"
    by (simp add: example_split_registry_def spec_defs js_eval model_defs image_iff)
  have h2: "valid_node ?o"
    by (simp add: example_split_registry_def spec_defs js_eval model_defs image_iff)
  have h3: "js_has ?o ''SplitFiles''"
    by (simp add: example_split_registry_def)
  have h4: "render_node example_split_registry [] (''F'', ?o) =
     Inr (node_files example_split_registry (''F'', ?o))"
    using render_node_valid [OF h1, of "(''F'', ?o)" "[]"] h2 by simp
  show ?thesis using h1 h2 h3 h4 split_files_cumulative [OF h1 h2 h3 h4] by simp
qed

theorem single_file_output_witness:
  "valid_registry example_route_registry \<and>
   valid_node (snd (hd example_route_registry)) \<and>
   \<not> js_has (snd (hd example_route_registry)) ''SplitFiles'' \<and>
   render_node example_route_registry [] (''D'', snd (hd example_route_registry)) =
     Inr [(single_path ''D'', iface_spec (snd (hd example_route_registry)) @
           concat (map (section_spec (''D'', snd (hd example_route_registry)))
             (peers_spec example_route_registry (''D'', snd (hd example_route_registry)))))]"
proof -
  let ?o = "snd (hd example_route_registry)"
  have h1: "valid_registry example_route_registry"
    by (simp add: example_route_registry_def spec_defs js_eval model_defs image_iff)
  have h2: "valid_node ?o"
    by (simp add: example_route_registry_def spec_defs js_eval model_defs image_iff)
  have h3: "\<not> js_has ?o ''SplitFiles''"
    by (simp add: example_route_registry_def)
  show ?thesis using h1 h2 h3 single_file_output [OF h1 h2 h3, of "''D''"] by simp
qed

theorem parse_lines_wf_witness:
  "wf_obj [] \<and>
   parse_lines ''N.wg'' ([], init_state) [''Address = 10.0.0.9/32'', ''SplitFiles = true''] =
     Inr ([(''Address'', Arr [''10.0.0.9/32'']), (''SplitFiles'', JTrue)], init_state) \<and>
   wf_obj [(''Address'', Arr [''10.0.0.9/32'']), (''SplitFiles'', JTrue)]"
proof -
  have h1: "wf_obj []" by (simp add: spec_defs)
  have h2: "parse_lines ''N.wg'' ([], init_state) [''Address = 10.0.0.9/32'', ''SplitFiles = true''] =
     Inr ([(''Address'', Arr [''10.0.0.9/32'']), (''SplitFiles'', JTrue)], init_state)"
    by (simp add: js_eval model_defs Let_def)
  show ?thesis using h1 h2 parse_lines_wf [OF h1 h2] by simp
qed

theorem load_all_err_iff_warnings_witness:
  "load_all init_state [(''n.wg'', ''Address = 10.0.0.9/32'')] =
     Inr \<lparr>nodes = [(''n'', [(''Address'', Arr [''10.0.0.9/32''])])], err = True,
          warnings = [Missing ''n.wg'' ''PublicKey'']\<rparr> \<and>
   (True \<longleftrightarrow> [Missing ''n.wg'' ''PublicKey''] \<noteq> [])"
proof -
  have h: "load_all init_state [(''n.wg'', ''Address = 10.0.0.9/32'')] =
     Inr \<lparr>nodes = [(''n'', [(''Address'', Arr [''10.0.0.9/32''])])], err = True,
          warnings = [Missing ''n.wg'' ''PublicKey'']\<rparr>"
    by (simp add: js_eval model_defs Let_def)
  show ?thesis using h load_all_err_iff_warnings [OF h] by simp
qed

theorem node_name_roundtrip_witness:
  "is_wg ''alpha.wg'' \<and> node_name ''alpha.wg'' @ ''.wg'' = ''alpha.wg''"
proof -
  have h: "is_wg ''alpha.wg''" by (simp add: model_defs js_eval)
  show ?thesis using h node_name_roundtrip [OF h] by simp
qed

theorem split_without_peers_writes_nothing_witness:
  "valid_registry example_lonely_split \<and> valid_node (snd (hd example_lonely_split)) \<and>
   js_has (snd (hd example_lonely_split)) ''SplitFiles'' \<and>
   peers_spec example_lonely_split (''F'', snd (hd example_lonely_split)) = [] \<and>
   render_node example_lonely_split [] (''F'', snd (hd example_lonely_split)) = Inr []"
proof -
  let ?o = "snd (hd example_lonely_split)"
  have h1: "valid_registry example_lonely_split"
    by (simp add: example_lonely_split_def spec_defs js_eval model_defs image_iff)
  have h2: "valid_node ?o"
    by (simp add: example_lonely_split_def spec_defs js_eval model_defs image_iff)
  have h3: "js_has ?o ''SplitFiles''"
    by (simp add: example_lonely_split_def)
  have h4: "peers_spec example_lonely_split (''F'', ?o) = []"
    by (simp add: example_lonely_split_def spec_defs js_eval model_defs image_iff)
  show ?thesis using h1 h2 h3 h4 split_without_peers_writes_nothing [OF h1 h2 h3 h4] by simp
qed

theorem peer_section_frame_witness:
  "peer_section (''A'', [(''Address'', Arr [''10.0.0.1/32'']), (''PersistentKeepalive'', Arr [''25'']), (''ListenPort'', Arr [''51820''])])
     (''B'', [(''PublicKey'', Arr [''pkB'']), (''Address'', Arr [''10.0.0.2/32'']), (''PersistentKeepalive'', Arr [''99''])]) =
   peer_section (''A'', [(''PersistentKeepalive'', Arr [''25''])]) (''B'', [(''Address'', Arr [''10.0.0.2/32'']), (''PublicKey'', Arr [''pkB''])]) \<and>
   peer_section (''A'', [(''PersistentKeepalive'', Arr [''25''])]) (''B'', [(''Address'', Arr [''10.0.0.2/32'']), (''PublicKey'', Arr [''pkB''])]) =
     Inr ''\<newline># B\<newline>[Peer]\<newline>PublicKey = pkB\<newline>AllowedIPs = 10.0.0.2/32\<newline>PersistentKeepalive = 25\<newline>''"
proof -
  let ?ob = "[(''PublicKey'', Arr [''pkB'']), (''Address'', Arr [''10.0.0.2/32'']), (''PersistentKeepalive'', Arr [''99''])]"
  let ?ob' = "[(''Address'', Arr [''10.0.0.2/32'']), (''PublicKey'', Arr [''pkB''])]"
  let ?oa = "[(''Address'', Arr [''10.0.0.1/32'']), (''PersistentKeepalive'', Arr [''25'']), (''ListenPort'', Arr [''51820''])]"
  let ?oa' = "[(''PersistentKeepalive'', Arr [''25''])]"
  have h1: "\<forall>k \<in> set [''PublicKey'', ''Address'', ''Network'', ''Endpoint'']. js_get ?ob k = js_get ?ob' k"
    by simp
  have h2: "\<forall>k \<in> set [''DefaultRoute'', ''PersistentKeepalive'']. js_get ?oa k = js_get ?oa' k"
    by simp
  have v: "peer_section (''A'', ?oa') (''B'', ?ob') =
     Inr ''\<newline># B\<newline>[Peer]\<newline>PublicKey = pkB\<newline>AllowedIPs = 10.0.0.2/32\<newline>PersistentKeepalive = 25\<newline>''"
    by (simp add: model_defs)
  show ?thesis using h1 h2 v peer_section_frame [OF h1 h2, of "''A''" "''B''"] by simp
qed

theorem split_first_eq_roundtrip_witness:
  "CHR ''='' \<notin> set ''PostUp '' \<and> \<not> list_ex is_line_terminator '' sysctl -w net.ipv4.ip_forward=1'' \<and>
   js_split_first_eq (''PostUp = sysctl -w net.ipv4.ip_forward=1'') = (''PostUp '', '' sysctl -w net.ipv4.ip_forward=1'')"
proof -
  have h1: "CHR ''='' \<notin> set ''PostUp ''" by simp
  have h2: "\<not> list_ex is_line_terminator '' sysctl -w net.ipv4.ip_forward=1''" by (simp add: js_eval)
  show ?thesis using h1 h2 split_first_eq_roundtrip [OF h1 h2] by simp
qed

theorem peer_graph_undirected_witness:
  "wf_registry example_split_registry \<and>
   peer_edges example_split_registry = [(''F'', ''G''), (''F'', ''H''), (''G'', ''F''), (''H'', ''F'')] \<and>
   sym (set (peer_edges example_split_registry)) \<and> irrefl (set (peer_edges example_split_registry))"
proof -
  have h: "wf_registry example_split_registry"
    by (simp add: example_split_registry_def spec_defs js_eval model_defs image_iff)
  have e: "peer_edges example_split_registry = [(''F'', ''G''), (''F'', ''H''), (''G'', ''F''), (''H'', ''F'')]"
    by (simp add: example_split_registry_def spec_defs js_eval model_defs)
  show ?thesis using h e peer_graph_undirected [OF h] by simp
qed

section \<open>Behaviours found by the modelling\<close>

text \<open>C11. An empty \<open>ConnectTo\<close> line isolates the node: \<open>ConnectTo =\<close> parses to the list
  holding the empty name, so the key is present and no non-empty peer name is a member; the
  specification reads an empty list as no restriction.\<close>

theorem empty_connect_isolates:
  assumes "b \<noteq> []"
  shows "parse_lines ''C.wg'' ([], init_state) [''ConnectTo =''] =
           Inr ([(''ConnectTo'', Arr [[]])], init_state) \<and>
         skip_peer (a, [(''ConnectTo'', Arr [[]])]) (b, ob) = Inr True"
proof -
  have "parse_lines ''C.wg'' ([], init_state) [''ConnectTo =''] =
           Inr ([(''ConnectTo'', Arr [[]])], init_state)"
    by (simp add: js_eval model_defs Let_def)
  moreover have "skip_peer (a, [(''ConnectTo'', Arr [[]])]) (b, ob) = Inr True"
    using assms by (simp add: skip_peer_def excluded_by_def js_includes_def js_or_Inr)
  ultimately show ?thesis by simp
qed

theorem empty_connect_isolates_witness:
  "''B'' \<noteq> [] \<and>
   parse_lines ''C.wg'' ([], init_state) [''ConnectTo =''] = Inr ([(''ConnectTo'', Arr [[]])], init_state) \<and>
   skip_peer (''C'', [(''ConnectTo'', Arr [[]])]) (''B'', [(''Endpoint'', Arr [''b:1''])]) = Inr True"
proof -
  have h: "''B'' \<noteq> []" by simp
  show ?thesis using empty_connect_isolates [OF h, of "''C''" "[(''Endpoint'', Arr [''b:1''])]"] by simp
qed

text \<open>C17. An empty \<open>Endpoint\<close> counts as an endpoint: the specification requires a
  non-empty \<open>Endpoint\<close> on one side of a pair, but \<open>Endpoint =\<close> stores \<open>['']\<close> and
  line 78 tests only \<open>'Endpoint' in obj\<close>.  So a valid node whose \<open>Endpoint\<close> is empty
  peers, in both directions, with every other well-formed node that has no \<open>ConnectTo\<close>
  restriction, endpoint or not, and every such peer's section for it carries the empty line
  \<open>Endpoint = \<close>.\<close>

theorem empty_endpoint_counts:
  assumes "a \<noteq> b" and "valid_node oa" and "js_get oa ''Endpoint'' = Some (Arr [[]])"
    and "\<not> js_has oa ''ConnectTo''" and "wf_obj ob" and "\<not> js_has ob ''ConnectTo''"
  shows "parse_lines f ([], init_state) [''Endpoint =''] = Inr ([(''Endpoint'', Arr [[]])], init_state) \<and>
         skip_peer (a, oa) (b, ob) = Inr False \<and> skip_peer (b, ob) (a, oa) = Inr False \<and>
         peer_section (b, ob) (a, oa) = Inr (section_spec (b, ob) (a, oa)) \<and>
         js_has oa ''Endpoint'' \<and> first_value oa ''Endpoint'' = []"
proof -
  have wa: "wf_obj oa" using assms(2) by (simp add: valid_node_def)
  have ep: "js_has oa ''Endpoint''" using assms(3) by (simp add: js_has_get)
  have "parse_lines f ([], init_state) [''Endpoint =''] = Inr ([(''Endpoint'', Arr [[]])], init_state)"
    by (simp add: js_eval model_defs Let_def)
  moreover have "peer_rule (a, oa) (b, ob)"
    using assms(1,4,6) ep by (simp add: peer_rule_def connect_allows_def)
  moreover have "peer_rule (b, ob) (a, oa)"
    using assms(1,4,6) ep by (simp add: peer_rule_def connect_allows_def)
  moreover have "peer_section (b, ob) (a, oa) = Inr (section_spec (b, ob) (a, oa))"
    using peer_section_valid [of "(b, ob)" "(a, oa)"] assms(2,5) by simp
  moreover have "first_value oa ''Endpoint'' = []"
    using assms(3) by (simp add: first_value_def attr_values_def)
  ultimately show ?thesis
    using skip_peer_refines [of "(a, oa)" "(b, ob)"] skip_peer_refines [of "(b, ob)" "(a, oa)"]
      wa assms(5) ep by simp
qed

theorem empty_endpoint_counts_witness:
  "parse_lines ''A.wg'' ([], init_state) [''Endpoint =''] = Inr ([(''Endpoint'', Arr [[]])], init_state) \<and>
   skip_peer (''A'', example_empty_endpoint) (''B'', [(''Address'', Arr [''10.0.0.2/32''])]) = Inr False \<and>
   skip_peer (''B'', [(''Address'', Arr [''10.0.0.2/32''])]) (''A'', example_empty_endpoint) = Inr False \<and>
   peer_section (''B'', [(''Address'', Arr [''10.0.0.2/32''])]) (''A'', example_empty_endpoint) =
     Inr (section_spec (''B'', [(''Address'', Arr [''10.0.0.2/32''])]) (''A'', example_empty_endpoint)) \<and>
   js_has example_empty_endpoint ''Endpoint'' \<and> first_value example_empty_endpoint ''Endpoint'' = []"
proof -
  have h1: "''A'' \<noteq> ''B''" by simp
  have h2: "valid_node example_empty_endpoint"
    by (simp add: spec_defs js_eval model_defs example_empty_endpoint_def)
  have h3: "js_get example_empty_endpoint ''Endpoint'' = Some (Arr [[]])"
    by (simp add: example_empty_endpoint_def)
  have h4: "\<not> js_has example_empty_endpoint ''ConnectTo''"
    by (simp add: example_empty_endpoint_def)
  have h5: "wf_obj [(''Address'', Arr [''10.0.0.2/32''])]"
    by (simp add: spec_defs js_eval model_defs)
  have h6: "\<not> js_has [(''Address'', Arr [''10.0.0.2/32''])] ''ConnectTo''" by simp
  show ?thesis using empty_endpoint_counts [OF h1 h2 h3 h4 h5 h6] by simp
qed

end
